theory Spec2Isabelle
  imports Main "HOL-Library.Sublist"
begin

section \<open>Strings\<close>

text \<open>
  A JavaScript string is modelled by the list of the bytes of its UTF-8 encoding, the
  form in which \<^verbatim>\<open>src/App.tsx\<close> stores its literals. The operations below are the
  ones of \<^verbatim>\<open>String.prototype\<close> on ASCII text: \<open>toLowerCase\<close> and \<open>toUpperCase\<close>
  change the 26 Latin letters, and \<open>trim\<close> removes TAB, LF, VT, FF, CR and SPACE. Bytes
  above 127 are left alone, so the model follows the program on ASCII messages; the only
  non-ASCII text that occurs is copied from the source unchanged (the bullet of the help
  text and the two direction glyphs).
\<close>

definition nl :: string where
  "nl = [CHR 0x0A]"

definition isWhiteSpace :: "char \<Rightarrow> bool" where
  "isWhiteSpace c =
     (c = CHR 0x09 \<or> c = CHR 0x0A \<or> c = CHR 0x0B \<or> c = CHR 0x0C \<or> c = CHR 0x0D \<or> c = CHR 0x20)"

definition lowerChar :: "char \<Rightarrow> char" where
  "lowerChar c =
     (let n = (of_char c :: nat) in if 65 \<le> n \<and> n \<le> 90 then char_of (n + 32) else c)"

definition upperChar :: "char \<Rightarrow> char" where
  "upperChar c =
     (let n = (of_char c :: nat) in if 97 \<le> n \<and> n \<le> 122 then char_of (n - 32) else c)"

definition toLowerCase :: "string \<Rightarrow> string" where
  "toLowerCase s = map lowerChar s"

definition toUpperCase :: "string \<Rightarrow> string" where
  "toUpperCase s = map upperChar s"

definition trim :: "string \<Rightarrow> string" where
  "trim s = rev (dropWhile isWhiteSpace (rev (dropWhile isWhiteSpace s)))"

text \<open>
  \<^verbatim>\<open>s.split(' ')\<close> cuts at every single space: two spaces in a row give an empty
  piece, and the result always has at least one piece (\<^verbatim>\<open>''.split(' ')\<close> is \<^verbatim>\<open>['']\<close>).
\<close>

fun split :: "char \<Rightarrow> string \<Rightarrow> string list" where
  "split d [] = [[]]"
| "split d (c # cs) =
     (if c = d then [] # split d cs
      else (case split d cs of [] \<Rightarrow> [[c]] | w # ws \<Rightarrow> (c # w) # ws))"

fun join :: "string \<Rightarrow> string list \<Rightarrow> string" where
  "join sep [] = []"
| "join sep [x] = x"
| "join sep (x # y # ys) = x @ sep @ join sep (y # ys)"

text \<open>\<^verbatim>\<open>parts[0]\<close> on the result of \<open>split\<close>, which is never empty.\<close>

definition first :: "string list \<Rightarrow> string" where
  "first parts = (case parts of [] \<Rightarrow> [] | p # _ \<Rightarrow> p)"

definition includesString :: "string \<Rightarrow> string \<Rightarrow> bool" where
  "includesString s k = sublist k s"

definition startsWith :: "string \<Rightarrow> string \<Rightarrow> bool" where
  "startsWith s p = prefix p s"

text \<open>\<^verbatim>\<open>s.replace(pat, rep)\<close> with a string pattern: the first occurrence only.\<close>

fun replace :: "string \<Rightarrow> string \<Rightarrow> string \<Rightarrow> string" where
  "replace [] pat rep = (if pat = [] then rep else [])"
| "replace (c # cs) pat rep =
     (if prefix pat (c # cs) then rep @ drop (length pat) (c # cs)
      else c # replace cs pat rep)"

text \<open>\<^verbatim>\<open>ToString\<close> of a member that may be missing (\<^verbatim>\<open>undefined\<close>).\<close>

definition ToString :: "string option \<Rightarrow> string" where
  "ToString v = (case v of None \<Rightarrow> ''undefined'' | Some s \<Rightarrow> s)"

section \<open>The command parser\<close>

record parsed =
  command :: string
  args :: string

definition parseCommand :: "string \<Rightarrow> parsed" where
  "parseCommand message =
     (let parts = split (CHR '' '') (trim (toLowerCase message)) in
      \<lparr>command = first parts, args = join '' '' (drop 1 parts)\<rparr>)"

section \<open>The knowledge table\<close>

definition bullet :: string where
  "bullet = [CHR 0xC3, CHR 0xA2, CHR 0xE2, CHR 0x82, CHR 0xAC, CHR 0xC2, CHR 0xA2]"

definition hello_text :: string where
  "hello_text =
     ''Hello! I'm your financial assistant. I can help you with:'' @ nl @
     ''- Stock prices (try 'stock AAPL')'' @ nl @ ''- Investment basics'' @ nl @
     ''- Market terms'' @ nl @ ''- Financial advice'' @ nl @
     ''What would you like to know?''"

definition help_text :: string where
  "help_text =
     ''Here are commands you can try:'' @ nl @
     ''- 'stock SYMBOL' (e.g., try these symbols:'' @ nl @
     ''  '' @ bullet @ '' AAPL (Apple)'' @ nl @
     ''  '' @ bullet @ '' MSFT (Microsoft)'' @ nl @
     ''  '' @ bullet @ '' GOOGL (Google)'' @ nl @
     ''  '' @ bullet @ '' AMZN (Amazon)'' @ nl @
     ''  '' @ bullet @ '' TSLA (Tesla)'' @ nl @
     ''  '' @ bullet @ '' META (Meta/Facebook)'' @ nl @
     ''  '' @ bullet @ '' NFLX (Netflix))'' @ nl @
     ''- 'explain investing'' @ [CHR 0x27] @ nl @
     ''- 'what is a stock'' @ [CHR 0x27] @ nl @
     ''- 'investment tips'' @ [CHR 0x27] @ nl @
     ''- 'market basics'' @ [CHR 0x27]"

definition what_is_a_stock_text :: string where
  "what_is_a_stock_text =
     ''A stock represents ownership in a company. When you buy a stock,'' @
     '' you're buying a small piece of that company. The stock price can go'' @
     '' up or down based on the company's performance and market conditions.''"

definition investment_tips_text :: string where
  "investment_tips_text =
     ''Here are some basic investment tips:'' @ nl @ ''1. Diversify your portfolio'' @ nl @
     ''2. Invest for the long term'' @ nl @ ''3. Start early'' @ nl @
     ''4. Research before investing'' @ nl @
     ''5. Don't invest money you can't afford to lose''"

definition market_basics_text :: string where
  "market_basics_text =
     ''The stock market is where shares of public companies are bought and'' @
     '' sold. Key things to know:'' @ nl @ ''- Stock exchanges (NYSE, NASDAQ)'' @ nl @
     ''- Market hours (9:30 AM - 4:00 PM EST)'' @ nl @
     ''- Types of orders (market, limit)'' @ nl @ ''- Basic terms (bull/bear market)''"

definition explain_investing_text :: string where
  "explain_investing_text =
     ''Investing is putting money into assets hoping to grow wealth over'' @
     '' time. Common investment types:'' @ nl @ ''1. Stocks'' @ nl @ ''2. Bonds'' @ nl @
     ''3. Mutual Funds'' @ nl @ ''4. ETFs'' @ nl @ ''5. Real Estate''"

definition default_text :: string where
  "default_text =
     ''I'm not sure about that. Try asking about stocks, investing basics,'' @
     '' or type 'help' for available commands.''"

text \<open>
  The own members of \<^verbatim>\<open>predefinedResponses\<close>, in the order of their declaration, which
  is the order in which \<^verbatim>\<open>Object.entries\<close> lists them (no key is an array index).
\<close>

definition predefinedResponses :: "(string \<times> string) list" where
  "predefinedResponses =
     [(''hello'', hello_text),
      (''help'', help_text),
      (''what is a stock'', what_is_a_stock_text),
      (''investment tips'', investment_tips_text),
      (''market basics'', market_basics_text),
      (''explain investing'', explain_investing_text),
      (''default'', default_text)]"

text \<open>
  \<^verbatim>\<open>predefinedResponses\<close> is an object literal, so a lookup \<^verbatim>\<open>predefinedResponses[k]\<close>
  that finds no own member goes on to \<^verbatim>\<open>Object.prototype\<close>. The value of a lookup is
  therefore a text, or one of the members that every object inherits: the built-in
  functions, and under \<^verbatim>\<open>__proto__\<close> the prototype object itself.
\<close>

datatype jsvalue = Text string | ObjectPrototype | NativeFunction string

definition inheritedMembers :: "(string \<times> jsvalue) list" where
  "inheritedMembers =
     [(''constructor'', NativeFunction ''Object''),
      (''__defineGetter__'', NativeFunction ''__defineGetter__''),
      (''__defineSetter__'', NativeFunction ''__defineSetter__''),
      (''hasOwnProperty'', NativeFunction ''hasOwnProperty''),
      (''__lookupGetter__'', NativeFunction ''__lookupGetter__''),
      (''__lookupSetter__'', NativeFunction ''__lookupSetter__''),
      (''isPrototypeOf'', NativeFunction ''isPrototypeOf''),
      (''propertyIsEnumerable'', NativeFunction ''propertyIsEnumerable''),
      (''toString'', NativeFunction ''toString''),
      (''valueOf'', NativeFunction ''valueOf''),
      (''__proto__'', ObjectPrototype),
      (''toLocaleString'', NativeFunction ''toLocaleString'')]"

text \<open>
  \<^verbatim>\<open>predefinedResponses[k]\<close>; \<open>None\<close> is \<^verbatim>\<open>undefined\<close>. Every value that is found is
  truthy: the answers are non-empty strings, the others are objects.
\<close>

definition lookupResponse :: "string \<Rightarrow> jsvalue option" where
  "lookupResponse k =
     (case map_of predefinedResponses k of
        Some t \<Rightarrow> Some (Text t)
      | None \<Rightarrow> map_of inheritedMembers k)"

text \<open>
  \<^verbatim>\<open>ToString\<close> of such a value, as a template literal applies it. The prototype object
  prints as \<^verbatim>\<open>[object Object]\<close>; a built-in function prints its name in the form that
  V8 and JavaScriptCore give to \<^verbatim>\<open>NativeFunction\<close> (the standard leaves its white space
  to the engine).
\<close>

definition valueToString :: "jsvalue \<Rightarrow> string" where
  "valueToString v =
     (case v of
        Text t \<Rightarrow> t
      | ObjectPrototype \<Rightarrow> ''[object Object]''
      | NativeFunction name \<Rightarrow> ''function '' @ name @ ''() { [native code] }'')"

section \<open>Numbers\<close>

text \<open>
  \<^verbatim>\<open>parseFloat\<close>, \<^verbatim>\<open>Number.prototype.toFixed\<close> and the comparison \<^verbatim>\<open>x >= 0\<close> work on
  IEEE 754 doubles. The functions of the program that need them take them as a parameter,
  so that what is proved of the resolver holds for every interpretation of the three
  operations; the next section gives the interpretation of JavaScript.
\<close>

record 'f number_ops =
  parseFloat :: "string \<Rightarrow> 'f"
  toFixed :: "'f \<Rightarrow> nat \<Rightarrow> string"
  geZero :: "'f \<Rightarrow> bool"

section \<open>IEEE doubles\<close>

text \<open>
  The interpretation of the number operations that JavaScript gives. \<open>Finite neg m e\<close> is the
  double of magnitude \<open>m \<times> 2\<^sup>e\<close>, negative when \<open>neg\<close> holds; the doubles that \<open>parseFloat\<close>
  yields have \<open>0 \<le> m < 2\<^sup>5\<^sup>3\<close> and \<open>- 1074 \<le> e \<le> 971\<close>, with \<open>2\<^sup>5\<^sup>2 \<le> m\<close> unless
  \<open>e = - 1074\<close>. Both zeros are finite: \<open>Finite False 0 (- 1074)\<close> and
  \<open>Finite True 0 (- 1074)\<close>.
\<close>

datatype float64 = NaN | Infinite bool | Finite bool int int

text \<open>The number of binary digits of a positive integer.\<close>

function bits :: "int \<Rightarrow> int" where
  "bits n = (if n \<le> 0 then 0 else 1 + bits (n div 2))"
  by pat_completeness auto
termination
  by (relation "measure nat") auto

declare bits.simps [simp del]

text \<open>\<open>\<lfloor>log\<^sub>2 (a / b)\<rfloor>\<close> for positive \<open>a\<close> and \<open>b\<close>.\<close>

definition floorLog2 :: "int \<Rightarrow> int \<Rightarrow> int" where
  "floorLog2 a b =
     (let d = bits a - bits b in
      if (if 0 \<le> d then b * 2 ^ nat d \<le> a else b \<le> a * 2 ^ nat (- d)) then d else d - 1)"

text \<open>The integer nearest to \<open>num / den\<close>, the even one of two that are equally near.\<close>

definition roundHalfEven :: "int \<Rightarrow> int \<Rightarrow> int" where
  "roundHalfEven num den =
     (let q = num div den; r = num mod den in
      if 2 * r < den then q
      else if den < 2 * r then q + 1
      else if even q then q else q + 1)"

text \<open>
  The double nearest to the rational \<open>a / b\<close> (\<open>0 \<le> a\<close>, \<open>0 < b\<close>), ties to even, with the
  sign \<open>neg\<close>: 53 binary digits, fewer below \<open>2\<^sup>-\<^sup>1\<^sup>0\<^sup>2\<^sup>2\<close>, infinity from
  \<open>2\<^sup>1\<^sup>0\<^sup>2\<^sup>4 - 2\<^sup>9\<^sup>7\<^sup>0\<close> on.
\<close>

definition roundToDouble :: "bool \<Rightarrow> int \<Rightarrow> int \<Rightarrow> float64" where
  "roundToDouble neg a b =
     (if a = 0 then Finite neg 0 (- 1074)
      else
        (let e = max (floorLog2 a b - 52) (- 1074);
             m = (if 0 \<le> e then roundHalfEven a (b * 2 ^ nat e)
                  else roundHalfEven (a * 2 ^ nat (- e)) b)
         in if m = 2 ^ 53 then (if 971 < e + 1 then Infinite neg else Finite neg (2 ^ 52) (e + 1))
            else (if 971 < e then Infinite neg else Finite neg m e)))"

definition isDigit :: "char \<Rightarrow> bool" where
  "isDigit c = (48 \<le> (of_char c :: int) \<and> (of_char c :: int) \<le> 57)"

definition digitsValue :: "string \<Rightarrow> int" where
  "digitsValue ds = foldl (\<lambda>n c. 10 * n + (of_char c - 48)) 0 ds"

text \<open>
  The value of an exponent part at the head of \<open>r\<close>: \<^verbatim>\<open>e\<close> or \<^verbatim>\<open>E\<close>, an optional sign and
  at least one digit; 0 when \<open>r\<close> does not start with a complete exponent part.
\<close>

definition exponentPart :: "string \<Rightarrow> int" where
  "exponentPart r =
     (case r of
        [] \<Rightarrow> 0
      | c # r1 \<Rightarrow>
          if c = CHR ''e'' \<or> c = CHR ''E'' then
            (case r1 of
               [] \<Rightarrow> 0
             | s # r2 \<Rightarrow>
                 if s = CHR ''-'' then - digitsValue (takeWhile isDigit r2)
                 else if s = CHR ''+'' then digitsValue (takeWhile isDigit r2)
                 else digitsValue (takeWhile isDigit r1))
          else 0)"

text \<open>
  \<^verbatim>\<open>parseFloat\<close> on a string: leading white space is skipped, the longest prefix that is a
  \<^verbatim>\<open>StrDecimalLiteral\<close> is read (a sign, then \<^verbatim>\<open>Infinity\<close> or digits with an optional
  fraction and exponent), and its value is rounded to the nearest double; \<open>NaN\<close> when
  there is no such prefix. The rounding is exact (the standard allows an approximation
  after the twentieth significant digit, which the engines do not use).
\<close>

definition parseFloatJS :: "string \<Rightarrow> float64" where
  "parseFloatJS s =
     (let t = dropWhile isWhiteSpace s;
          neg = (case t of [] \<Rightarrow> False | c # _ \<Rightarrow> c = CHR ''-'');
          u = (case t of [] \<Rightarrow> [] | c # r \<Rightarrow> if c = CHR ''-'' \<or> c = CHR ''+'' then r else t)
      in if prefix ''Infinity'' u then Infinite neg
         else
           (let ip = takeWhile isDigit u;
                r1 = dropWhile isDigit u;
                fr = (case r1 of [] \<Rightarrow> [] | c # r \<Rightarrow> if c = CHR ''.'' then takeWhile isDigit r else []);
                r2 = (case r1 of [] \<Rightarrow> [] | c # r \<Rightarrow> if c = CHR ''.'' then dropWhile isDigit r else r1)
            in if ip = [] \<and> fr = [] then NaN
               else
                 (let k = exponentPart r2 - int (length fr);
                      d = digitsValue (ip @ fr)
                  in if 0 \<le> k then roundToDouble neg (d * 10 ^ nat k) 1
                     else roundToDouble neg d (10 ^ nat (- k)))))"

function showNat :: "int \<Rightarrow> string" where
  "showNat n = (if n < 10 then [char_of (48 + n)] else showNat (n div 10) @ [char_of (48 + n mod 10)])"
  by pat_completeness auto
termination
  by (relation "measure nat") auto

declare showNat.simps [simp del]

text \<open>A finite double of magnitude \<open>10\<^sup>2\<^sup>1\<close> or more.\<close>

definition huge :: "float64 \<Rightarrow> bool" where
  "huge x =
     (case x of
        Finite neg m e \<Rightarrow>
          (if 0 \<le> e then 10 ^ 21 \<le> m * 2 ^ nat e else 10 ^ 21 * 2 ^ nat (- e) \<le> m)
      | _ \<Rightarrow> False)"

text \<open>
  The digits that \<^verbatim>\<open>Number::toString\<close> prints for a double \<open>x\<close> whose value is the integer
  \<open>v\<close>: integers \<open>s\<close> and \<open>p\<close> such that \<open>s\<close> has \<open>k\<close> decimal digits, \<open>s \<times> 10\<^sup>p\<close> rounds to
  \<open>x\<close>, and \<open>k\<close> is as small as possible (the standard writes \<open>n - k\<close> for \<open>p\<close>). The numbers
  that round to \<open>x\<close> form an interval around \<open>v\<close>, so for a given \<open>k\<close> and \<open>p\<close> it is enough to
  try the two multiples of \<open>10\<^sup>p\<close> around \<open>v\<close>: if any multiple rounds to \<open>x\<close>, the nearest one
  is among them; and \<open>s \<times> 10\<^sup>p\<close> has as many digits as \<open>v\<close> or one more. Of several \<open>s\<close> with
  the least \<open>k\<close> the one nearest to \<open>v\<close> is taken, and the even one of two that are equally
  near, as the standard recommends and the engines do.
\<close>

definition digitCandidates :: "int \<Rightarrow> float64 \<Rightarrow> nat \<Rightarrow> (int \<times> nat) list" where
  "digitCandidates v x k =
     (let len = length (showNat v) in
      [(s, p). p \<leftarrow> [len - k, len + 1 - k], s \<leftarrow> [v div 10 ^ p, v div 10 ^ p + 1],
               10 ^ (k - 1) \<le> s \<and> s < 10 ^ k \<and> roundToDouble False (s * 10 ^ p) 1 = x])"

fun nearest :: "int \<Rightarrow> (int \<times> nat) list \<Rightarrow> (int \<times> nat) option" where
  "nearest v [] = None"
| "nearest v ((s, p) # cs) =
     (case nearest v cs of
        None \<Rightarrow> Some (s, p)
      | Some (s', p') \<Rightarrow>
          if \<bar>s * 10 ^ p - v\<bar> < \<bar>s' * 10 ^ p' - v\<bar> \<or>
             (\<bar>s * 10 ^ p - v\<bar> = \<bar>s' * 10 ^ p' - v\<bar> \<and> even s)
          then Some (s, p) else Some (s', p'))"

text \<open>
  Seventeen digits always identify a double, so the search ends at some \<open>k \<le> 17\<close> for
  every double; the digits of \<open>v\<close> itself close the definition for the other finite values
  of the type.
\<close>

definition shortestDigits :: "int \<Rightarrow> float64 \<Rightarrow> int \<times> nat" where
  "shortestDigits v x =
     (case find (\<lambda>k. digitCandidates v x k \<noteq> []) [1..<18] of
        None \<Rightarrow> (v, 0)
      | Some k \<Rightarrow> (case nearest v (digitCandidates v x k) of None \<Rightarrow> (v, 0) | Some c \<Rightarrow> c))"

text \<open>
  \<^verbatim>\<open>Number::toString\<close> of the positive double \<open>m \<times> 2\<^sup>e\<close> when it is \<open>10\<^sup>2\<^sup>1\<close> or more (then
  \<open>0 \<le> e\<close>, and the value is an integer): the first digit, a point and the other digits
  when there are any, then \<^verbatim>\<open>e+\<close> and the decimal exponent of the first digit.
\<close>

definition largeToString :: "int \<Rightarrow> int \<Rightarrow> string" where
  "largeToString m e =
     (let (s, p) = shortestDigits (m * 2 ^ nat e) (Finite False m e);
          ds = showNat s
      in (if length ds = 1 then ds else take 1 ds @ ''.'' @ drop 1 ds) @ ''e+'' @
         showNat (int p + int (length ds) - 1))"

text \<open>
  \<^verbatim>\<open>x.toFixed(f)\<close> for \<open>f \<le> 100\<close> (the program passes 2; a larger \<open>f\<close> raises a
  \<^verbatim>\<open>RangeError\<close>): the integer \<open>n\<close> nearest to \<open>x \<times> 10\<^sup>f\<close>, the larger one of two that are equally
  near, written with \<open>f\<close> decimals. \<open>NaN\<close> and the infinities print their names. A huge
  number prints as \<^verbatim>\<open>Number::toString\<close> prints it, after the sign.
\<close>

definition toFixedJS :: "float64 \<Rightarrow> nat \<Rightarrow> string" where
  "toFixedJS x f =
     (case x of
        NaN \<Rightarrow> ''NaN''
      | Infinite neg \<Rightarrow> (if neg then ''-Infinity'' else ''Infinity'')
      | Finite neg m e \<Rightarrow>
          (let s = (if neg \<and> m \<noteq> 0 then ''-'' else [])
           in if huge (Finite neg m e) then s @ largeToString m e
              else
                (let n = (if 0 \<le> e then m * 2 ^ nat e * 10 ^ f
                          else (2 * m * 10 ^ f + 2 ^ nat (- e)) div (2 * 2 ^ nat (- e)));
                     ds = showNat n;
                     padded = replicate (f + 1 - length ds) (CHR ''0'') @ ds
                 in if f = 0 then s @ padded
                    else s @ take (length padded - f) padded @ ''.'' @
                         drop (length padded - f) padded)))"

text \<open>\<^verbatim>\<open>x >= 0\<close>: false for \<open>NaN\<close>, true for both zeros.\<close>

definition geZeroJS :: "float64 \<Rightarrow> bool" where
  "geZeroJS x =
     (case x of NaN \<Rightarrow> False | Infinite neg \<Rightarrow> \<not> neg | Finite neg m e \<Rightarrow> m = 0 \<or> \<not> neg)"

definition jsNumbers :: "float64 number_ops" where
  "jsNumbers = \<lparr>parseFloat = parseFloatJS, toFixed = toFixedJS, geZero = geZeroJS\<rparr>"

text \<open>
  What the specification says of a rendered number, exactly two decimal places: an
  optional minus sign, at least one digit, a point and two digits.
\<close>

definition hasTwoDecimals :: "string \<Rightarrow> bool" where
  "hasTwoDecimals t =
     (let u = (case t of [] \<Rightarrow> [] | c # r \<Rightarrow> if c = CHR ''-'' then r else t) in
      takeWhile isDigit u \<noteq> [] \<and>
      (case dropWhile isDigit u of
         [p, a, b] \<Rightarrow> p = CHR ''.'' \<and> isDigit a \<and> isDigit b
       | _ \<Rightarrow> False))"

section \<open>The two fetches\<close>

text \<open>
  What \<^verbatim>\<open>await response.json()\<close> yields is modelled in the shape the upstream API
  documents: an object with an optional string \<^verbatim>\<open>Note\<close>, an optional object
  \<^verbatim>\<open>Global Quote\<close> and an optional object \<^verbatim>\<open>Monthly Time Series\<close>, where the members
  of a quote and of a month are strings. An object is the list of its members in the
  order \<^verbatim>\<open>Object.entries\<close> enumerates them (for date keys, the order of the
  document), with distinct keys.
\<close>

type_synonym jsobject = "(string \<times> string) list"

record document =
  Note :: "string option"
  Global_Quote :: "jsobject option"
  Monthly_Time_Series :: "(string \<times> jsobject) list option"

text \<open>
  A request is identified by the API function and the symbol of its URL. \<open>Rejected\<close>
  stands for every way in which \<^verbatim>\<open>fetch\<close> or \<^verbatim>\<open>response.json()\<close> throws.
\<close>

datatype request = GLOBAL_QUOTE string | TIME_SERIES_MONTHLY string

datatype 'a settled = Rejected | Resolved 'a

type_synonym network = "request \<Rightarrow> document settled"

text \<open>The requests sent so far are threaded through as a log.\<close>

definition fetch :: "network \<Rightarrow> request \<Rightarrow> request list \<Rightarrow> document settled \<times> request list" where
  "fetch net r log = (net r, log @ [r])"

text \<open>
  The objects \<^verbatim>\<open>{ error: ... }\<close> and \<^verbatim>\<open>{ data: ... }\<close>. Every error text is a non-empty
  string, so the tests \<^verbatim>\<open>quoteResult.error\<close> and \<^verbatim>\<open>!historyResult.error\<close> of the caller
  distinguish exactly the two constructors.
\<close>

datatype 'a result = Error string | Data 'a

definition truthy :: "string option \<Rightarrow> bool" where
  "truthy v = (case v of None \<Rightarrow> False | Some s \<Rightarrow> s \<noteq> [])"

definition getStockData ::
  "network \<Rightarrow> string \<Rightarrow> request list \<Rightarrow> jsobject result \<times> request list" where
  "getStockData net symbol log =
     (let (outcome, log') = fetch net (GLOBAL_QUOTE symbol) log in
      (case outcome of
         Rejected \<Rightarrow> Error ''Failed to fetch stock data. Please try again.''
       | Resolved d \<Rightarrow>
           if truthy (Note d) then Error ''API rate limit reached. Please try again in a minute.''
           else (case Global_Quote d of
                   None \<Rightarrow> Error (''Could not find stock data for symbol: '' @ symbol)
                 | Some q \<Rightarrow>
                     if length q = 0
                     then Error (''Could not find stock data for symbol: '' @ symbol)
                     else Data q),
       log'))"

record 'f point =
  date :: string
  price :: 'f

definition getHistoricalData ::
  "'f number_ops \<Rightarrow> network \<Rightarrow> string \<Rightarrow> request list \<Rightarrow> 'f point list result \<times> request list" where
  "getHistoricalData fp net symbol log =
     (let (outcome, log') = fetch net (TIME_SERIES_MONTHLY symbol) log in
      (case outcome of
         Rejected \<Rightarrow> Error ''Failed to fetch historical data''
       | Resolved d \<Rightarrow>
           if truthy (Note d) then Error ''API rate limit reached. Please try again in a minute.''
           else (case Monthly_Time_Series d of
                   None \<Rightarrow> Error ''No historical data found''
                 | Some series \<Rightarrow>
                     Data (map (\<lambda>(day, vals).
                                  \<lparr>date = take 7 day,
                                   price = parseFloat fp (ToString (map_of vals ''4. close''))\<rparr>)
                             (rev (take 12 series)))),
       log'))"

section \<open>The quote summary\<close>

definition up_glyph :: string where
  "up_glyph = [CHR 0xC3, CHR 0xB0, CHR 0xC5, CHR 0xB8, CHR 0xE2, CHR 0x80, CHR 0x9C, CHR 0xCB, CHR 0x86]"

definition down_glyph :: string where
  "down_glyph =
     [CHR 0xC3, CHR 0xB0, CHR 0xC5, CHR 0xB8, CHR 0xE2, CHR 0x80, CHR 0x9C, CHR 0xE2, CHR 0x80, CHR 0xB0]"

definition formatStockResponse :: "'f number_ops \<Rightarrow> jsobject \<Rightarrow> string \<Rightarrow> string" where
  "formatStockResponse fp stockData symbol =
     (let price = toFixed fp (parseFloat fp (ToString (map_of stockData ''05. price''))) 2;
          change = toFixed fp (parseFloat fp (ToString (map_of stockData ''09. change''))) 2;
          changePercent = map_of stockData ''10. change percent'';
          direction = (if geZero fp (parseFloat fp change) then up_glyph else down_glyph)
      in direction @ '' '' @ toUpperCase symbol @ '' Stock Info:'' @ nl @
         ''Price: $'' @ price @ nl @
         ''Change: $'' @ change @ '' ('' @ ToString changePercent @ '')'' @ nl @
         ''Today's High: $'' @
           toFixed fp (parseFloat fp (ToString (map_of stockData ''03. high''))) 2 @ nl @
         ''Today's Low: $'' @
           toFixed fp (parseFloat fp (ToString (map_of stockData ''04. low''))) 2)"

section \<open>The response resolver\<close>

record 'f chart =
  symbol :: string
  points :: "'f point list"

text \<open>
  The payload \<^verbatim>\<open>{ text, chartData }\<close>. The field \<^verbatim>\<open>text\<close> is called \<open>reply\<close> here; it
  holds whatever the branch that answered has put there.
\<close>

record 'f response =
  reply :: jsvalue
  chartData :: "'f chart option"

text \<open>The three branches of \<^verbatim>\<open>getBotResponse\<close> that read the knowledge table.\<close>

definition exactMatch :: "string \<Rightarrow> jsvalue option" where
  "exactMatch lowerMessage = lookupResponse lowerMessage"

definition partialMatch :: "string \<Rightarrow> string option" where
  "partialMatch lowerMessage =
     map_option snd (find (\<lambda>(key, response). includesString lowerMessage key) predefinedResponses)"

definition termQuery :: "string \<Rightarrow> string option" where
  "termQuery lowerMessage =
     (if startsWith lowerMessage ''what is'' \<or> startsWith lowerMessage ''explain'' then
        (let term = trim (replace (replace lowerMessage ''what is'' []) ''explain'' []) in
         if term \<noteq> [] then
           Some (''I'll explain '' @ term @ ''. '' @
                 (case lookupResponse term of
                    Some v \<Rightarrow> valueToString v
                  | None \<Rightarrow> default_text))
         else None)
      else None)"

definition knowledgeReply :: "string \<Rightarrow> jsvalue" where
  "knowledgeReply lowerMessage =
     (case exactMatch lowerMessage of
        Some v \<Rightarrow> v
      | None \<Rightarrow>
          (case partialMatch lowerMessage of
             Some t \<Rightarrow> Text t
           | None \<Rightarrow>
               (case termQuery lowerMessage of
                  Some t \<Rightarrow> Text t
                | None \<Rightarrow> Text default_text)))"

text \<open>
  \<^verbatim>\<open>getBotResponse\<close> returns its payload together with the requests it has sent.
\<close>

definition getBotResponse ::
  "'f number_ops \<Rightarrow> network \<Rightarrow> string \<Rightarrow> 'f response \<times> request list" where
  "getBotResponse fp net userMessage =
     (let pc = parseCommand userMessage;
          lowerMessage = toLowerCase userMessage
      in if command pc = ''stock'' \<and> args pc \<noteq> [] then
           (let symbol = first (split (CHR '' '') (args pc));
                (quoteResult, log1) = getStockData net symbol [];
                (historyResult, log2) = getHistoricalData fp net symbol log1
            in (case quoteResult of
                  Error e \<Rightarrow> (\<lparr>reply = Text e, chartData = None\<rparr>, log2)
                | Data q \<Rightarrow>
                    (let response = formatStockResponse fp q symbol in
                     (case historyResult of
                        Data d \<Rightarrow>
                          (\<lparr>reply = Text response,
                            chartData = Some \<lparr>symbol = toUpperCase symbol, points = d\<rparr>\<rparr>, log2)
                      | Error _ \<Rightarrow> (\<lparr>reply = Text response, chartData = None\<rparr>, log2)))))
         else (\<lparr>reply = knowledgeReply lowerMessage, chartData = None\<rparr>, []))"

section \<open>Sample responses\<close>

text \<open>Networks and documents on which the results below are run.\<close>

definition offline :: network where
  "offline = (\<lambda>r. Rejected)"

definition unknown_symbol :: network where
  "unknown_symbol =
     (\<lambda>r. Resolved \<lparr>Note = None, Global_Quote = Some [], Monthly_Time_Series = None\<rparr>)"

definition empty_note :: network where
  "empty_note =
     (\<lambda>r. Resolved \<lparr>Note = Some [], Global_Quote = None, Monthly_Time_Series = None\<rparr>)"

definition sample_quote :: jsobject where
  "sample_quote =
     [(''01. symbol'', ''AAPL''), (''03. high'', ''151.00''), (''04. low'', ''148.00''),
      (''05. price'', ''150.00''), (''09. change'', ''2.50''),
      (''10. change percent'', ''1.69%'')]"

definition sample_series :: "(string \<times> jsobject) list" where
  "sample_series =
     [(''2024-03-28'', [(''1. open'', ''179.55''), (''4. close'', ''171.48'')]),
      (''2024-02-29'', [(''1. open'', ''183.99''), (''4. close'', ''180.75'')]),
      (''2024-01-31'', [(''1. open'', ''187.15''), (''4. close'', ''184.40'')]),
      (''2023-12-29'', [(''1. open'', ''190.33''), (''4. close'', ''192.53'')]),
      (''2023-11-30'', [(''1. open'', ''171.00''), (''4. close'', ''189.95'')]),
      (''2023-10-31'', [(''1. open'', ''171.22''), (''4. close'', ''170.77'')]),
      (''2023-09-29'', [(''1. open'', ''189.49''), (''4. close'', ''171.21'')]),
      (''2023-08-31'', [(''1. open'', ''196.24''), (''4. close'', ''187.87'')]),
      (''2023-07-31'', [(''1. open'', ''193.78''), (''4. close'', ''196.45'')]),
      (''2023-06-30'', [(''1. open'', ''177.70''), (''4. close'', ''193.97'')]),
      (''2023-05-31'', [(''1. open'', ''169.28''), (''4. close'', ''177.25'')]),
      (''2023-04-28'', [(''1. open'', ''164.27''), (''4. close'', ''169.68'')]),
      (''2023-03-31'', [(''1. open'', ''146.83''), (''4. close'', ''164.90'')])]"

text \<open>Both requests are answered, the history with thirteen months, newest first.\<close>

definition live :: network where
  "live =
     (\<lambda>r. case r of
        GLOBAL_QUOTE s \<Rightarrow>
          Resolved \<lparr>Note = None, Global_Quote = Some sample_quote, Monthly_Time_Series = None\<rparr>
      | TIME_SERIES_MONTHLY s \<Rightarrow>
          Resolved \<lparr>Note = None, Global_Quote = None, Monthly_Time_Series = Some sample_series\<rparr>)"

text \<open>The quote is answered, the history request fails.\<close>

definition history_down :: network where
  "history_down =
     (\<lambda>r. case r of
        GLOBAL_QUOTE s \<Rightarrow>
          Resolved \<lparr>Note = None, Global_Quote = Some sample_quote, Monthly_Time_Series = None\<rparr>
      | TIME_SERIES_MONTHLY s \<Rightarrow> Rejected)"

text \<open>The quote request is throttled, although the document also carries data.\<close>

definition throttled :: network where
  "throttled =
     (\<lambda>r. case r of
        GLOBAL_QUOTE s \<Rightarrow>
          Resolved \<lparr>Note = Some ''Thank you for using Alpha Vantage!'',
            Global_Quote = Some sample_quote, Monthly_Time_Series = None\<rparr>
      | TIME_SERIES_MONTHLY s \<Rightarrow>
          Resolved \<lparr>Note = None, Global_Quote = None, Monthly_Time_Series = Some sample_series\<rparr>)"

text \<open>A quote whose change is a small loss, and a quote without the members of a quote.\<close>

definition small_loss :: jsobject where
  "small_loss =
     [(''03. high'', ''151.00''), (''04. low'', ''148.00''), (''05. price'', ''150.00''),
      (''09. change'', ''-0.001''), (''10. change percent'', ''-0.0007%'')]"

definition bare_quote :: jsobject where
  "bare_quote = [(''01. symbol'', ''AAPL'')]"

text \<open>A quote whose change is a loss, and one whose numbers are huge.\<close>

definition sample_loss :: jsobject where
  "sample_loss =
     [(''03. high'', ''151.00''), (''04. low'', ''144.10''), (''05. price'', ''146.25''),
      (''09. change'', ''-3.75''), (''10. change percent'', ''-2.50%'')]"

definition vast_loss :: jsobject where
  "vast_loss =
     [(''03. high'', ''1e21''), (''04. low'', ''1180591620717411303424''),
      (''05. price'', ''12345678901234567890123''), (''09. change'', ''-1e21''),
      (''10. change percent'', ''-50%'')]"

section \<open>Splitting and joining\<close>

lemma split_not_Nil: "split d s \<noteq> []"
  by (induction s) (auto split: list.splits)

lemma first_split: "first (split d s) = takeWhile (\<lambda>c. c \<noteq> d) s"
  by (induction s) (auto simp: first_def split: list.splits)

lemma join_split: "join [d] (split d s) = s"
proof (induction s)
  case Nil
  show ?case by simp
next
  case (Cons c cs)
  obtain w ws where sp: "split d cs = w # ws"
    using split_not_Nil [of d cs] by (cases "split d cs") auto
  show ?case
  proof (cases "c = d")
    case True
    with Cons sp show ?thesis by simp
  next
    case False
    with Cons sp show ?thesis by (cases ws) auto
  qed
qed

lemma rest_split: "join [d] (drop 1 (split d s)) = drop 1 (dropWhile (\<lambda>c. c \<noteq> d) s)"
proof (induction s)
  case Nil
  show ?case by simp
next
  case (Cons c cs)
  obtain w ws where sp: "split d cs = w # ws"
    using split_not_Nil [of d cs] by (cases "split d cs") auto
  show ?case
  proof (cases "c = d")
    case True
    then show ?thesis using join_split [of d cs] by simp
  next
    case False
    with Cons sp show ?thesis by simp
  qed
qed

lemma parseCommand_shape:
  "parseCommand raw =
     \<lparr>command = takeWhile (\<lambda>c. c \<noteq> CHR '' '') (trim (toLowerCase raw)),
      args = drop 1 (dropWhile (\<lambda>c. c \<noteq> CHR '' '') (trim (toLowerCase raw)))\<rparr>"
  using rest_split [of "CHR 0x20"] by (simp add: parseCommand_def Let_def first_split)

section \<open>Trimming and containment\<close>

lemma trim_decomp:
  "\<exists>a b. s = a @ trim s @ b \<and> (\<forall>c\<in>set a. isWhiteSpace c) \<and> (\<forall>c\<in>set b. isWhiteSpace c)"
proof -
  define r where "r = dropWhile isWhiteSpace s"
  define b where "b = rev (takeWhile isWhiteSpace (rev r))"
  have s: "s = takeWhile isWhiteSpace s @ r"
    by (simp add: r_def)
  have "trim s @ b = rev (takeWhile isWhiteSpace (rev r) @ dropWhile isWhiteSpace (rev r))"
    by (simp only: trim_def r_def b_def rev_append)
  also have "\<dots> = r"
    by (simp only: takeWhile_dropWhile_id rev_rev_ident)
  finally have r: "r = trim s @ b" by simp
  have wa: "\<forall>c\<in>set (takeWhile isWhiteSpace s). isWhiteSpace c"
    by (auto dest: set_takeWhileD)
  have wb: "\<forall>c\<in>set b. isWhiteSpace c"
    by (auto simp: b_def dest: set_takeWhileD)
  from s r have "s = takeWhile isWhiteSpace s @ trim s @ b"
    by simp
  with wa wb show ?thesis by blast
qed

lemma sublist_skip_left:
  assumes "\<forall>c\<in>set a. isWhiteSpace c" "k \<noteq> []" "\<not> isWhiteSpace (hd k)"
  shows "sublist k (a @ s) \<longleftrightarrow> sublist k s"
  using assms(1)
proof (induction a)
  case Nil
  show ?case by simp
next
  case (Cons c a)
  have "\<not> prefix k (c # a @ s)"
  proof
    assume "prefix k (c # a @ s)"
    with assms(2) have "hd k = c" by (cases k) auto
    with Cons.prems assms(3) show False by simp
  qed
  with Cons show ?case by (simp add: sublist_Cons_right)
qed

lemma sublist_skip_right:
  assumes "\<forall>c\<in>set b. isWhiteSpace c" "k \<noteq> []" "\<not> isWhiteSpace (last k)"
  shows "sublist k (s @ b) \<longleftrightarrow> sublist k s"
proof -
  have "sublist k (s @ b) \<longleftrightarrow> sublist (rev k) (rev b @ rev s)"
    by (metis rev_append sublist_rev)
  also have "\<dots> \<longleftrightarrow> sublist (rev k) (rev s)"
    using assms by (intro sublist_skip_left) (auto simp: hd_rev)
  finally show ?thesis by simp
qed

lemma includes_padded:
  assumes "\<forall>c\<in>set a. isWhiteSpace c" "\<forall>c\<in>set b. isWhiteSpace c"
    and "k \<noteq> []" "\<not> isWhiteSpace (hd k)" "\<not> isWhiteSpace (last k)"
  shows "includesString (a @ s @ b) k = includesString s k"
  using assms by (simp add: includesString_def sublist_skip_left sublist_skip_right)

section \<open>Facts about the knowledge table\<close>

lemma table_mem:
  "(k, t) \<in> set predefinedResponses \<longleftrightarrow>
     k = ''hello'' \<and> t = hello_text \<or>
     k = ''help'' \<and> t = help_text \<or>
     k = ''what is a stock'' \<and> t = what_is_a_stock_text \<or>
     k = ''investment tips'' \<and> t = investment_tips_text \<or>
     k = ''market basics'' \<and> t = market_basics_text \<or>
     k = ''explain investing'' \<and> t = explain_investing_text \<or>
     k = ''default'' \<and> t = default_text"
  by (simp only: predefinedResponses_def list.set insert_iff empty_iff prod.inject simp_thms)

lemma key_shape:
  assumes "(k, t) \<in> set predefinedResponses"
  shows "k \<noteq> [] \<and> \<not> isWhiteSpace (hd k) \<and> \<not> isWhiteSpace (last k)"
  using assms unfolding table_mem by (elim disjE conjE) (simp_all add: isWhiteSpace_def)

text \<open>No trigger contains an earlier one: scanning a trigger finds the trigger itself.\<close>

lemma key_reply:
  assumes "(k, t) \<in> set predefinedResponses"
  shows "partialMatch k = Some t"
  using assms unfolding table_mem
  apply (elim disjE conjE)
  apply (simp_all only:)
  apply code_simp+
  done

lemma key_not_stock:
  assumes "(k, t) \<in> set predefinedResponses"
  shows "takeWhile (\<lambda>c. c \<noteq> CHR '' '') k \<noteq> ''stock''"
  using assms unfolding table_mem by (elim disjE conjE) simp_all

lemma partialMatch_padded:
  assumes "\<forall>c\<in>set a. isWhiteSpace c" "\<forall>c\<in>set b. isWhiteSpace c"
  shows "partialMatch (a @ s @ b) = partialMatch s"
proof -
  have "find (\<lambda>(key, response). includesString (a @ s @ b) key) predefinedResponses =
        find (\<lambda>(key, response). includesString s key) predefinedResponses"
  proof (rule find_cong [OF refl])
    fix x assume x: "x \<in> set predefinedResponses"
    obtain k t where kt: "x = (k, t)" by (cases x)
    from x kt key_shape [of k t] assms show
      "(case x of (key, response) \<Rightarrow> includesString (a @ s @ b) key) =
       (case x of (key, response) \<Rightarrow> includesString s key)"
      by (simp add: includes_padded)
  qed
  then show ?thesis by (simp only: partialMatch_def)
qed

text \<open>
  The names of the inherited members: none of them contains a trigger, and none is the
  word \<^verbatim>\<open>stock\<close> with white space around it.
\<close>

lemma inherited_mem:
  "(k, v) \<in> set inheritedMembers \<longleftrightarrow>
     k = ''constructor'' \<and> v = NativeFunction ''Object'' \<or>
     k = ''__defineGetter__'' \<and> v = NativeFunction ''__defineGetter__'' \<or>
     k = ''__defineSetter__'' \<and> v = NativeFunction ''__defineSetter__'' \<or>
     k = ''hasOwnProperty'' \<and> v = NativeFunction ''hasOwnProperty'' \<or>
     k = ''__lookupGetter__'' \<and> v = NativeFunction ''__lookupGetter__'' \<or>
     k = ''__lookupSetter__'' \<and> v = NativeFunction ''__lookupSetter__'' \<or>
     k = ''isPrototypeOf'' \<and> v = NativeFunction ''isPrototypeOf'' \<or>
     k = ''propertyIsEnumerable'' \<and> v = NativeFunction ''propertyIsEnumerable'' \<or>
     k = ''toString'' \<and> v = NativeFunction ''toString'' \<or>
     k = ''valueOf'' \<and> v = NativeFunction ''valueOf'' \<or>
     k = ''__proto__'' \<and> v = ObjectPrototype \<or>
     k = ''toLocaleString'' \<and> v = NativeFunction ''toLocaleString''"
  by (simp only: inheritedMembers_def list.set insert_iff empty_iff prod.inject simp_thms)

lemma inherited_no_trigger:
  assumes "(k, v) \<in> set inheritedMembers"
  shows "partialMatch k = None"
  using assms unfolding inherited_mem
  apply (elim disjE conjE)
  apply (simp_all only:)
  apply code_simp+
  done

lemma inherited_not_stock:
  assumes "(k, v) \<in> set inheritedMembers"
  shows "trim k \<noteq> ''stock''"
  using assms unfolding inherited_mem
  apply (elim disjE conjE)
  apply (simp_all only:)
  apply code_simp+
  done

lemma exactMatch_cases:
  assumes "exactMatch l = Some v"
  shows "(\<exists>t. v = Text t \<and> (l, t) \<in> set predefinedResponses) \<or> (l, v) \<in> set inheritedMembers"
  using assms
  by (auto simp: exactMatch_def lookupResponse_def split: option.splits dest: map_of_SomeD)

text \<open>When the scan finds a trigger, the exact lookup cannot answer anything else.\<close>

lemma partialMatch_reply:
  assumes "partialMatch l = Some t"
  shows "knowledgeReply l = Text t"
proof (cases "exactMatch l")
  case None
  with assms show ?thesis by (simp add: knowledgeReply_def)
next
  case (Some v)
  then consider t' where "v = Text t'" "(l, t') \<in> set predefinedResponses"
    | "(l, v) \<in> set inheritedMembers"
    using exactMatch_cases by blast
  then show ?thesis
  proof cases
    case 1
    from 1(2) have "partialMatch l = Some t'" by (rule key_reply)
    with assms Some 1(1) show ?thesis by (simp add: knowledgeReply_def)
  next
    case 2
    then have "partialMatch l = None" by (rule inherited_no_trigger)
    with assms show ?thesis by simp
  qed
qed

section \<open>The branches of the resolver\<close>

lemma knowledge_branch:
  assumes "\<not> (command (parseCommand m) = ''stock'' \<and> args (parseCommand m) \<noteq> [])"
  shows "getBotResponse fp net m =
    (\<lparr>reply = knowledgeReply (toLowerCase m), chartData = None\<rparr>, [])"
proof -
  from assms have
    "(command (parseCommand m) = ''stock'' \<and> args (parseCommand m) \<noteq> []) = False"
    by blast
  then show ?thesis
    unfolding getBotResponse_def Let_def by (simp only: if_False)
qed

lemma trigger_reply:
  assumes "map_of predefinedResponses (trim (toLowerCase m)) = Some t"
  shows "getBotResponse fp net m = (\<lparr>reply = Text t, chartData = None\<rparr>, [])"
proof -
  define l where "l = toLowerCase m"
  from assms have kt: "(trim l, t) \<in> set predefinedResponses"
    by (auto simp: l_def dest: map_of_SomeD)
  obtain a b where l: "l = a @ trim l @ b"
    and a: "\<forall>c\<in>set a. isWhiteSpace c" and b: "\<forall>c\<in>set b. isWhiteSpace c"
    using trim_decomp [of l] by blast
  have "partialMatch l = partialMatch (a @ trim l @ b)"
    using l by simp
  also have "\<dots> = partialMatch (trim l)"
    using a b by (rule partialMatch_padded)
  also have "\<dots> = Some t"
    using kt by (rule key_reply)
  finally have "knowledgeReply l = Text t"
    by (rule partialMatch_reply)
  moreover have "command (parseCommand m) \<noteq> ''stock''"
    using key_not_stock [OF kt] by (simp add: parseCommand_shape l_def)
  ultimately show ?thesis
    by (simp add: knowledge_branch l_def)
qed

section \<open>The stock branch\<close>

lemma getStockData_log: "snd (getStockData net ticker log) = log @ [GLOBAL_QUOTE ticker]"
  by (simp add: getStockData_def fetch_def)

lemma getHistoricalData_log:
  "snd (getHistoricalData fp net ticker log) = log @ [TIME_SERIES_MONTHLY ticker]"
  by (simp add: getHistoricalData_def fetch_def)

lemma getStockData_any_log:
  "fst (getStockData net ticker log) = fst (getStockData net ticker [])"
  by (simp add: getStockData_def fetch_def)

lemma getHistoricalData_any_log:
  "fst (getHistoricalData fp net ticker log) = fst (getHistoricalData fp net ticker [])"
  by (simp add: getHistoricalData_def fetch_def)

lemma stock_branch:
  assumes "command (parseCommand m) = ''stock''" "args (parseCommand m) \<noteq> []"
    and "ticker = first (split (CHR '' '') (args (parseCommand m)))"
  shows "getBotResponse fp net m =
    ((case fst (getStockData net ticker []) of
        Error e \<Rightarrow> \<lparr>reply = Text e, chartData = None\<rparr>
      | Data q \<Rightarrow>
          (case fst (getHistoricalData fp net ticker []) of
             Data d \<Rightarrow>
               \<lparr>reply = Text (formatStockResponse fp q ticker),
                chartData = Some \<lparr>symbol = toUpperCase ticker, points = d\<rparr>\<rparr>
           | Error e \<Rightarrow> \<lparr>reply = Text (formatStockResponse fp q ticker), chartData = None\<rparr>)),
     [GLOBAL_QUOTE ticker, TIME_SERIES_MONTHLY ticker])"
proof -
  obtain qr l1 where q: "getStockData net ticker [] = (qr, l1)"
    by (cases "getStockData net ticker []")
  obtain hr l2 where h: "getHistoricalData fp net ticker l1 = (hr, l2)"
    by (cases "getHistoricalData fp net ticker l1")
  from q getStockData_log [of net ticker "[]"] have l1: "l1 = [GLOBAL_QUOTE ticker]"
    by simp
  from h getHistoricalData_log [of fp net ticker l1] l1
  have l2: "l2 = [GLOBAL_QUOTE ticker, TIME_SERIES_MONTHLY ticker]"
    by simp
  from h getHistoricalData_any_log [of fp net ticker l1]
  have hr: "fst (getHistoricalData fp net ticker []) = hr"
    by simp
  from q have qr: "fst (getStockData net ticker []) = qr"
    by simp
  show ?thesis
    unfolding getBotResponse_def Let_def
    using assms q h l2 hr qr
    by (simp split: result.splits)
qed

lemma getStockData_cases:
  "fst (getStockData net ticker log) =
     (case net (GLOBAL_QUOTE ticker) of
        Rejected \<Rightarrow> Error ''Failed to fetch stock data. Please try again.''
      | Resolved d \<Rightarrow>
          if truthy (Note d) then Error ''API rate limit reached. Please try again in a minute.''
          else (case Global_Quote d of
                  None \<Rightarrow> Error (''Could not find stock data for symbol: '' @ ticker)
                | Some q \<Rightarrow>
                    if q = [] then Error (''Could not find stock data for symbol: '' @ ticker)
                    else Data q))"
  by (auto simp: getStockData_def fetch_def split: settled.splits option.splits)

lemma getHistoricalData_cases:
  "fst (getHistoricalData fp net ticker log) =
     (case net (TIME_SERIES_MONTHLY ticker) of
        Rejected \<Rightarrow> Error ''Failed to fetch historical data''
      | Resolved d \<Rightarrow>
          if truthy (Note d) then Error ''API rate limit reached. Please try again in a minute.''
          else (case Monthly_Time_Series d of
                  None \<Rightarrow> Error ''No historical data found''
                | Some series \<Rightarrow>
                    Data (map (\<lambda>(day, vals).
                                 \<lparr>date = take 7 day,
                                  price = parseFloat fp (ToString (map_of vals ''4. close''))\<rparr>)
                            (rev (take 12 series)))))"
  by (auto simp: getHistoricalData_def fetch_def split: settled.splits option.splits)

lemma rate_limit_reply:
  assumes "command (parseCommand m) = ''stock''" "args (parseCommand m) \<noteq> []"
    and "ticker = first (split (CHR '' '') (args (parseCommand m)))"
    and "net (GLOBAL_QUOTE ticker) = Resolved d" "Note d = Some note" "note \<noteq> []"
  shows "getBotResponse fp net m =
    (\<lparr>reply = Text ''API rate limit reached. Please try again in a minute.'', chartData = None\<rparr>,
     [GLOBAL_QUOTE ticker, TIME_SERIES_MONTHLY ticker])"
  using assms(4-6)
  by (simp add: stock_branch [OF assms(1-3)] getStockData_cases truthy_def)

lemma not_found_reply:
  assumes "command (parseCommand m) = ''stock''" "args (parseCommand m) \<noteq> []"
    and "ticker = first (split (CHR '' '') (args (parseCommand m)))"
    and "net (GLOBAL_QUOTE ticker) = Resolved d" "\<not> truthy (Note d)"
    and "Global_Quote d = None \<or> Global_Quote d = Some []"
  shows "getBotResponse fp net m =
    (\<lparr>reply = Text (''Could not find stock data for symbol: '' @ ticker), chartData = None\<rparr>,
     [GLOBAL_QUOTE ticker, TIME_SERIES_MONTHLY ticker])"
  using assms(4-6)
  by (auto simp: stock_branch [OF assms(1-3)] getStockData_cases)

lemma degraded_reply:
  assumes "command (parseCommand m) = ''stock''" "args (parseCommand m) \<noteq> []"
    and "ticker = first (split (CHR '' '') (args (parseCommand m)))"
    and "fst (getStockData net ticker []) = Data q"
    and "fst (getHistoricalData fp net ticker []) = Error e"
  shows "getBotResponse fp net m =
    (\<lparr>reply = Text (formatStockResponse fp q ticker), chartData = None\<rparr>,
     [GLOBAL_QUOTE ticker, TIME_SERIES_MONTHLY ticker])"
  using assms(4-5)
  by (simp add: stock_branch [OF assms(1-3)])

lemma history_failure_kinds:
  "(\<exists>e. fst (getHistoricalData fp net ticker log) = Error e) \<longleftrightarrow>
   (net (TIME_SERIES_MONTHLY ticker) = Rejected \<or>
    (\<exists>d. net (TIME_SERIES_MONTHLY ticker) = Resolved d \<and>
         (truthy (Note d) \<or> Monthly_Time_Series d = None)))"
  by (auto simp: getHistoricalData_cases split: settled.splits option.splits)

lemma chart_reply:
  assumes "command (parseCommand m) = ''stock''" "args (parseCommand m) \<noteq> []"
    and "ticker = first (split (CHR '' '') (args (parseCommand m)))"
    and "fst (getStockData net ticker []) = Data q"
    and "net (TIME_SERIES_MONTHLY ticker) = Resolved d" "\<not> truthy (Note d)"
    and "Monthly_Time_Series d = Some series"
  shows "getBotResponse fp net m =
    (\<lparr>reply = Text (formatStockResponse fp q ticker),
      chartData = Some \<lparr>symbol = toUpperCase ticker,
        points = map (\<lambda>(day, vals).
                        \<lparr>date = take 7 day,
                         price = parseFloat fp (ToString (map_of vals ''4. close''))\<rparr>)
                   (rev (take 12 series))\<rparr>\<rparr>,
     [GLOBAL_QUOTE ticker, TIME_SERIES_MONTHLY ticker])"
  using assms(4-7)
  by (simp add: stock_branch [OF assms(1-3)] getHistoricalData_cases)

lemma quote_rejected_reply:
  assumes "command (parseCommand m) = ''stock''" "args (parseCommand m) \<noteq> []"
    and "ticker = first (split (CHR '' '') (args (parseCommand m)))"
    and "net (GLOBAL_QUOTE ticker) = Rejected"
  shows "getBotResponse fp net m =
    (\<lparr>reply = Text ''Failed to fetch stock data. Please try again.'', chartData = None\<rparr>,
     [GLOBAL_QUOTE ticker, TIME_SERIES_MONTHLY ticker])"
  using assms(4)
  by (simp add: stock_branch [OF assms(1-3)] getStockData_cases)

section \<open>Messages without arguments and the order of the scan\<close>

lemma trim_last:
  assumes "trim s \<noteq> []"
  shows "\<not> isWhiteSpace (last (trim s))"
proof -
  define r where "r = rev (dropWhile isWhiteSpace s)"
  from assms have ne: "dropWhile isWhiteSpace r \<noteq> []"
    by (simp add: trim_def r_def)
  then have "\<not> isWhiteSpace (hd (dropWhile isWhiteSpace r))"
    by (rule hd_dropWhile)
  with ne show ?thesis
    by (simp add: trim_def r_def last_rev)
qed

lemma bare_command:
  assumes "command (parseCommand m) = c" "args (parseCommand m) = []"
  shows "trim (toLowerCase m) = c"
proof -
  define t where "t = trim (toLowerCase m)"
  define d where "d = dropWhile (\<lambda>x. x \<noteq> CHR '' '') t"
  from assms have c: "takeWhile (\<lambda>x. x \<noteq> CHR '' '') t = c" and dr: "drop 1 d = []"
    by (simp_all add: parseCommand_shape t_def d_def)
  have "takeWhile (\<lambda>x. x \<noteq> CHR '' '') t @ dropWhile (\<lambda>x. x \<noteq> CHR '' '') t = t"
    by (rule takeWhile_dropWhile_id)
  then have t: "t = c @ d"
    by (simp only: c d_def)
  have "d = []"
  proof (rule ccontr)
    assume ne: "d \<noteq> []"
    then have "\<not> (hd d \<noteq> CHR '' '')"
      unfolding d_def by (rule hd_dropWhile)
    moreover from ne dr have "d = [hd d]"
      by (cases d) auto
    ultimately have "d = '' ''" by simp
    with t have "t \<noteq> []" "last t = CHR '' ''" by simp_all
    with trim_last [of "toLowerCase m"] show False
      by (simp add: t_def isWhiteSpace_def)
  qed
  with t show ?thesis by (simp add: t_def)
qed

lemma bare_stock_reply:
  assumes "command (parseCommand m) = ''stock''" "args (parseCommand m) = []"
  shows "getBotResponse fp net m = (\<lparr>reply = Text default_text, chartData = None\<rparr>, [])"
proof -
  define l where "l = toLowerCase m"
  have t: "trim l = ''stock''"
    using assms unfolding l_def by (rule bare_command)
  obtain a b where l: "l = a @ ''stock'' @ b"
    and a: "\<forall>c\<in>set a. isWhiteSpace c" and b: "\<forall>c\<in>set b. isWhiteSpace c"
    using trim_decomp [of l] t by auto
  have "partialMatch l = partialMatch ''stock''"
    unfolding l using a b by (rule partialMatch_padded)
  also have "\<dots> = None" by code_simp
  finally have pm: "partialMatch l = None" .
  have em: "exactMatch l = None"
  proof (cases "exactMatch l")
    case (Some v)
    then consider t' where "v = Text t'" "(l, t') \<in> set predefinedResponses"
      | "(l, v) \<in> set inheritedMembers"
      using exactMatch_cases by blast
    then show ?thesis
    proof cases
      case 1
      from 1(2) have "partialMatch l = Some t'" by (rule key_reply)
      with pm show ?thesis by simp
    next
      case 2
      then have "trim l \<noteq> ''stock''" by (rule inherited_not_stock)
      with t show ?thesis by simp
    qed
  qed simp
  have hd: "l \<noteq> [] \<and> (isWhiteSpace (hd l) \<or> hd l = CHR ''s'')"
    using a by (cases a) (simp_all add: l)
  have "\<not> prefix ''what is'' l"
  proof
    assume "prefix ''what is'' l"
    then have "hd l = CHR ''w''" by (cases l) auto
    with hd show False by (simp add: isWhiteSpace_def)
  qed
  moreover have "\<not> prefix ''explain'' l"
  proof
    assume "prefix ''explain'' l"
    then have "hd l = CHR ''e''" by (cases l) auto
    with hd show False by (simp add: isWhiteSpace_def)
  qed
  ultimately have tq: "termQuery l = None"
    by (simp add: termQuery_def startsWith_def)
  from pm em tq have "knowledgeReply l = Text default_text"
    by (simp add: knowledgeReply_def)
  with assms show ?thesis
    by (simp add: knowledge_branch l_def)
qed

lemma first_trigger:
  assumes "\<not> (command (parseCommand m) = ''stock'' \<and> args (parseCommand m) \<noteq> [])"
    and "i < length predefinedResponses"
    and "includesString (toLowerCase m) (fst (predefinedResponses ! i))"
    and "\<forall>j<i. \<not> includesString (toLowerCase m) (fst (predefinedResponses ! j))"
  shows "getBotResponse fp net m =
    (\<lparr>reply = Text (snd (predefinedResponses ! i)), chartData = None\<rparr>, [])"
proof -
  have "find (\<lambda>(key, response). includesString (toLowerCase m) key) predefinedResponses =
        Some (predefinedResponses ! i)"
    unfolding find_Some_iff using assms(2-4) by (auto simp: case_prod_beta)
  then have "partialMatch (toLowerCase m) = Some (snd (predefinedResponses ! i))"
    by (simp add: partialMatch_def)
  then have "knowledgeReply (toLowerCase m) = Text (snd (predefinedResponses ! i))"
    by (rule partialMatch_reply)
  with assms(1) show ?thesis
    by (simp add: knowledge_branch)
qed


section \<open>Parsing and rendering doubles\<close>

lemma isDigit_char_of: "0 \<le> n \<Longrightarrow> n < 10 \<Longrightarrow> isDigit (char_of (48 + n :: int))"
  by (simp add: isDigit_def)

lemma showNat_digits: "0 \<le> n \<Longrightarrow> showNat n \<noteq> [] \<and> (\<forall>c\<in>set (showNat n). isDigit c)"
proof (induction n rule: showNat.induct)
  case (1 n)
  show ?case
  proof (cases "n < 10")
    case True
    with "1.prems" show ?thesis
      by (subst (1 2) showNat.simps) (simp add: isDigit_char_of)
  next
    case False
    then have "0 \<le> n div 10" by simp
    with "1.IH" False have ih: "\<forall>c\<in>set (showNat (n div 10)). isDigit c" by simp
    have "isDigit (char_of (48 + n mod 10))"
      by (rule isDigit_char_of) simp_all
    with ih False show ?thesis
      by (subst (1 2) showNat.simps) simp
  qed
qed

lemma digitsValue_nonneg:
  assumes "\<forall>c\<in>set ds. isDigit c"
  shows "0 \<le> digitsValue ds"
proof -
  have "0 \<le> a \<Longrightarrow> \<forall>c\<in>set ds. isDigit c \<Longrightarrow>
      0 \<le> foldl (\<lambda>n c. 10 * n + (of_char c - 48)) a ds" for a :: int
    by (induction ds arbitrary: a) (auto simp: isDigit_def)
  with assms show ?thesis by (simp add: digitsValue_def)
qed

lemma roundHalfEven_nonneg: "0 \<le> num \<Longrightarrow> 0 < den \<Longrightarrow> 0 \<le> roundHalfEven num den"
  by (simp add: roundHalfEven_def Let_def pos_imp_zdiv_nonneg_iff)

lemma roundToDouble_mantissa:
  assumes "0 \<le> a" "0 < b" "roundToDouble neg a b = Finite n m e"
  shows "0 \<le> m"
proof (cases "a = 0")
  case True
  with assms show ?thesis by (simp add: roundToDouble_def)
next
  case False
  define ex where "ex = max (floorLog2 a b - 52) (- 1074)"
  define r where "r = (if 0 \<le> ex then roundHalfEven a (b * 2 ^ nat ex)
                  else roundHalfEven (a * 2 ^ nat (- ex)) b)"
  have r: "0 \<le> r"
    using assms(1,2) by (simp add: r_def roundHalfEven_nonneg)
  have "roundToDouble neg a b =
      (if r = 2 ^ 53 then (if 971 < ex + 1 then Infinite neg else Finite neg (2 ^ 52) (ex + 1))
       else (if 971 < ex then Infinite neg else Finite neg r ex))"
    using False by (simp only: roundToDouble_def Let_def ex_def r_def if_False)
  with assms(3) have "m = 2 ^ 52 \<or> m = r"
    by (simp split: if_splits)
  with r show ?thesis by auto
qed

lemma takeWhile_digits: "\<forall>c\<in>set (takeWhile isDigit s). isDigit c"
  by (auto dest: set_takeWhileD)

lemma parseFloatJS_mantissa:
  assumes "parseFloatJS s = Finite n m e"
  shows "0 \<le> m"
proof -
  define t where "t = dropWhile isWhiteSpace s"
  define neg where "neg = (case t of [] \<Rightarrow> False | c # _ \<Rightarrow> c = CHR ''-'')"
  define u where "u = (case t of [] \<Rightarrow> [] | c # r \<Rightarrow> if c = CHR ''-'' \<or> c = CHR ''+'' then r else t)"
  define ip where "ip = takeWhile isDigit u"
  define r1 where "r1 = dropWhile isDigit u"
  define fr where "fr = (case r1 of [] \<Rightarrow> [] | c # r \<Rightarrow> if c = CHR ''.'' then takeWhile isDigit r else [])"
  define r2 where "r2 = (case r1 of [] \<Rightarrow> [] | c # r \<Rightarrow> if c = CHR ''.'' then dropWhile isDigit r else r1)"
  define k where "k = exponentPart r2 - int (length fr)"
  define d where "d = digitsValue (ip @ fr)"
  have p: "parseFloatJS s =
     (if prefix ''Infinity'' u then Infinite neg
      else if ip = [] \<and> fr = [] then NaN
      else if 0 \<le> k then roundToDouble neg (d * 10 ^ nat k) 1
      else roundToDouble neg d (10 ^ nat (- k)))"
    by (simp only: parseFloatJS_def Let_def t_def neg_def u_def ip_def r1_def fr_def r2_def
        k_def d_def)
  have "\<forall>c\<in>set fr. isDigit c"
    by (auto simp: fr_def split: list.splits dest: set_takeWhileD)
  moreover have "\<forall>c\<in>set ip. isDigit c"
    by (auto simp: ip_def dest: set_takeWhileD)
  ultimately have d: "0 \<le> d"
    unfolding d_def by (intro digitsValue_nonneg) auto
  from assms p have
    "(0 \<le> k \<and> roundToDouble neg (d * 10 ^ nat k) 1 = Finite n m e) \<or>
     (\<not> 0 \<le> k \<and> roundToDouble neg d (10 ^ nat (- k)) = Finite n m e)"
    by (simp split: if_splits)
  then show ?thesis
  proof (elim disjE conjE)
    assume "roundToDouble neg (d * 10 ^ nat k) 1 = Finite n m e"
    moreover have "0 \<le> d * 10 ^ nat k" using d by simp
    ultimately show ?thesis by (intro roundToDouble_mantissa [of "d * 10 ^ nat k" 1 neg n m e]) simp_all
  next
    assume "roundToDouble neg d (10 ^ nat (- k)) = Finite n m e"
    with d show ?thesis by (intro roundToDouble_mantissa [of d "10 ^ nat (- k)" neg n m e]) simp_all
  qed
qed

lemma bits_pos: "0 < n \<Longrightarrow> 1 \<le> bits n"
proof -
  have "0 \<le> bits k" for k
    by (induction k rule: bits.induct) (subst bits.simps, simp)
  then show "0 < n \<Longrightarrow> 1 \<le> bits n"
    by (subst bits.simps) (simp add: add_increasing2)
qed

lemma bits_bounds: "0 < n \<Longrightarrow> 2 ^ nat (bits n - 1) \<le> n \<and> n < 2 ^ nat (bits n)"
proof (induction n rule: bits.induct)
  case (1 n)
  show ?case
  proof (cases "n div 2 = 0")
    case True
    with "1.prems" have n: "n = 1" by presburger
    have "bits 1 = 1"
      by (subst bits.simps, simp, subst bits.simps, simp)
    with n show ?thesis by simp
  next
    case False
    with "1.prems" have pos: "0 < n div 2" by presburger
    define k where "k = bits (n div 2)"
    from pos have k1: "1 \<le> k" unfolding k_def by (rule bits_pos)
    from "1.IH" "1.prems" pos have ih: "2 ^ nat (k - 1) \<le> n div 2" "n div 2 < 2 ^ nat k"
      by (simp_all add: k_def)
    have bn: "bits n = 1 + k"
      using "1.prems" by (subst bits.simps) (simp add: k_def)
    have e1: "nat (1 + k - 1) = Suc (nat (k - 1))" using k1 by simp
    have e2: "nat (1 + k) = Suc (nat k)" using k1 by simp
    have "2 * 2 ^ nat (k - 1) \<le> 2 * (n div 2)" using ih(1) by simp
    also have "\<dots> \<le> n" by presburger
    finally have lo: "2 ^ nat (bits n - 1) \<le> n" by (simp only: bn e1 power_Suc)
    have "n div 2 + 1 \<le> 2 ^ nat k" using ih(2) by simp
    then have "2 * (n div 2) + 2 \<le> 2 * 2 ^ nat k" by simp
    moreover have "n < 2 * (n div 2) + 2" by presburger
    ultimately have hi: "n < 2 ^ nat (bits n)" by (simp add: bn e2)
    from lo hi show ?thesis ..
  qed
qed

lemma floorLog2_lower:
  assumes "0 < a" "0 < b"
  shows "(0 \<le> floorLog2 a b \<longrightarrow> b * 2 ^ nat (floorLog2 a b) \<le> a) \<and>
         (floorLog2 a b < 0 \<longrightarrow> b \<le> a * 2 ^ nat (- floorLog2 a b))"
proof -
  define d where "d = bits a - bits b"
  define c where "c = (if 0 \<le> d then b * 2 ^ nat d \<le> a else b \<le> a * 2 ^ nat (- d))"
  have fl: "floorLog2 a b = (if c then d else d - 1)"
    by (simp add: floorLog2_def Let_def d_def c_def)
  show ?thesis
  proof (cases c)
    case True
    with fl show ?thesis by (auto simp: c_def split: if_splits)
  next
    case False
    define ka where "ka = nat (bits a)"
    define kb where "kb = nat (bits b)"
    have ka: "1 \<le> ka" "bits a = int ka" using bits_pos [OF assms(1)] by (simp_all add: ka_def)
    have kb: "1 \<le> kb" "bits b = int kb" using bits_pos [OF assms(2)] by (simp_all add: kb_def)
    have a: "2 ^ (ka - 1) \<le> a"
      using bits_bounds [OF assms(1)] ka by (simp add: nat_diff_distrib')
    have b: "b < 2 ^ kb"
      using bits_bounds [OF assms(2)] kb by simp
    have d: "d = int ka - int kb" by (simp add: d_def ka kb)
    show ?thesis
    proof (cases "0 \<le> d - 1")
      case True
      then have le: "kb + 1 \<le> ka" using d by simp
      have n: "nat (d - 1) = ka - kb - 1" using d le by simp
      have "b * 2 ^ (ka - kb - 1) \<le> 2 ^ kb * 2 ^ (ka - kb - 1)"
        using b by (intro mult_right_mono) simp_all
      also have "\<dots> = 2 ^ (ka - 1)"
      proof -
        have "kb + (ka - kb - 1) = ka - 1" using le by simp
        then have "(2::int) ^ (ka - 1) = 2 ^ (kb + (ka - kb - 1))" by simp
        then show ?thesis by (simp only: power_add)
      qed
      also note a
      finally show ?thesis using False fl True n by simp
    next
      case neg: False
      then have le: "ka \<le> kb" using d by simp
      have n: "nat (- (d - 1)) = kb - ka + 1" using d le by simp
      have "b \<le> 2 ^ kb" using b by simp
      also have "\<dots> = 2 ^ (ka - 1) * 2 ^ (kb - ka + 1)"
      proof -
        have "ka - 1 + (kb - ka + 1) = kb" using le ka(1) by simp
        then have "(2::int) ^ kb = 2 ^ (ka - 1 + (kb - ka + 1))" by simp
        then show ?thesis by (simp only: power_add)
      qed
      also have "\<dots> \<le> a * 2 ^ (kb - ka + 1)"
        using a by (intro mult_right_mono) simp_all
      finally show ?thesis using False fl neg n by simp
    qed
  qed
qed

lemma floorLog2_ge:
  assumes "0 < a" "0 < b"
  shows "- bits b \<le> floorLog2 a b"
proof -
  have "1 \<le> bits a" using assms(1) by (rule bits_pos)
  then show ?thesis
    by (simp add: floorLog2_def Let_def)
qed

lemma roundHalfEven_pos:
  assumes "0 \<le> num" "0 < den" "den < 2 * num"
  shows "1 \<le> roundHalfEven num den"
proof (cases "num div den = 0")
  case True
  then have "num mod den = num"
    using div_mult_mod_eq [of num den] by simp
  with True assms(3) show ?thesis
    by (simp add: roundHalfEven_def Let_def)
next
  case False
  moreover have "0 \<le> num div den"
    using assms by (simp add: pos_imp_zdiv_nonneg_iff)
  ultimately have "1 \<le> num div den" by simp
  then show ?thesis
    by (simp add: roundHalfEven_def Let_def)
qed

lemma rounded_not_zero:
  assumes "1 \<le> n" "0 < b" "bits b \<le> 1022" "roundToDouble neg n b = Finite s m e"
  shows "m \<noteq> 0"
proof -
  define fl where "fl = floorLog2 n b"
  define ex where "ex = max (fl - 52) (- 1074)"
  define r where "r = (if 0 \<le> ex then roundHalfEven n (b * 2 ^ nat ex)
                  else roundHalfEven (n * 2 ^ nat (- ex)) b)"
  have n0: "0 < n" "n \<noteq> 0" using assms(1) by simp_all
  have "- bits b \<le> fl"
    unfolding fl_def using n0(1) assms(2) by (rule floorLog2_ge)
  with assms(3) have ex: "ex = fl - 52" by (simp add: ex_def)
  have lower: "(0 \<le> fl \<longrightarrow> b * 2 ^ nat fl \<le> n) \<and> (fl < 0 \<longrightarrow> b \<le> n * 2 ^ nat (- fl))"
    unfolding fl_def using n0(1) assms(2) by (rule floorLog2_lower)
  have r: "1 \<le> r"
  proof (cases "0 \<le> ex")
    case True
    then have "0 \<le> fl" "nat ex \<le> nat fl" using ex by simp_all
    then have "b * 2 ^ nat ex \<le> b * 2 ^ nat fl"
      using assms(2) by (intro mult_left_mono power_increasing) simp_all
    also have "\<dots> \<le> n" using lower \<open>0 \<le> fl\<close> by simp
    finally have "b * 2 ^ nat ex < 2 * n" using n0 by simp
    moreover have "0 < b * 2 ^ nat ex" using assms(2) by simp
    ultimately show ?thesis
      using True n0 by (simp add: r_def roundHalfEven_pos)
  next
    case False
    have "b \<le> n * 2 ^ nat (- ex)"
    proof (cases "0 \<le> fl")
      case True
      have "b * 1 \<le> b * 2 ^ nat fl"
        using assms(2) by (intro mult_left_mono) simp_all
      also have "\<dots> \<le> n" using lower True by simp
      also have "\<dots> = n * 1" by simp
      also have "\<dots> \<le> n * 2 ^ nat (- ex)"
        using n0 by (intro mult_left_mono) simp_all
      finally show ?thesis by simp
    next
      case neg: False
      then have "b \<le> n * 2 ^ nat (- fl)" using lower by simp
      also have "\<dots> \<le> n * 2 ^ nat (- ex)"
        using n0 ex by (intro mult_left_mono power_increasing) simp_all
      finally show ?thesis .
    qed
    moreover have "0 < n * 2 ^ nat (- ex)" using n0 by simp
    ultimately have "b < 2 * (n * 2 ^ nat (- ex))"
      by linarith
    with False n0 assms(2) show ?thesis
      by (simp add: r_def roundHalfEven_pos)
  qed
  have "roundToDouble neg n b =
      (if r = 2 ^ 53 then (if 971 < ex + 1 then Infinite neg else Finite neg (2 ^ 52) (ex + 1))
       else (if 971 < ex then Infinite neg else Finite neg r ex))"
    using n0(2) by (simp only: roundToDouble_def Let_def ex_def r_def fl_def if_False)
  with assms(4) have "m = 2 ^ 52 \<or> m = r"
    by (simp split: if_splits)
  with r show ?thesis by auto
qed

lemma bits_100: "bits 100 = 7"
  by code_simp

lemma bits_1: "bits 1 = 1"
  by code_simp

lemma rounded_sign:
  assumes "1 \<le> n" "0 < b" "bits b \<le> 1022"
  shows "geZeroJS (roundToDouble s n b) = (\<not> s)"
proof -
  from assms(1) have "n \<noteq> 0" by simp
  then have "roundToDouble s n b = Infinite s \<or> (\<exists>m e. roundToDouble s n b = Finite s m e)"
    by (auto simp: roundToDouble_def Let_def)
  then show ?thesis
  proof
    assume "roundToDouble s n b = Infinite s"
    then show ?thesis by (simp add: geZeroJS_def)
  next
    assume "\<exists>m e. roundToDouble s n b = Finite s m e"
    then obtain m e where r: "roundToDouble s n b = Finite s m e" by blast
    with assms have "m \<noteq> 0" by (rule rounded_not_zero)
    with r show ?thesis by (simp add: geZeroJS_def)
  qed
qed

lemma digit_value: "0 \<le> d \<Longrightarrow> d < 10 \<Longrightarrow> of_char (char_of (48 + d :: int)) - 48 = (d :: int)"
  by simp

lemma digitsValue_snoc: "digitsValue (ds @ [c]) = 10 * digitsValue ds + (of_char c - 48)"
  by (simp add: digitsValue_def)

lemma digitsValue_showNat: "0 \<le> n \<Longrightarrow> digitsValue (showNat n) = n"
proof (induction n rule: showNat.induct)
  case (1 n)
  show ?case
  proof (cases "n < 10")
    case True
    with "1.prems" show ?thesis
      by (subst showNat.simps) (simp add: digitsValue_def)
  next
    case False
    then have "0 \<le> n div 10" by simp
    with "1.IH" False have ih: "digitsValue (showNat (n div 10)) = n div 10" by simp
    have "of_char (char_of (48 + n mod 10)) - 48 = n mod 10"
      by (rule digit_value) simp_all
    with ih False show ?thesis
      by (subst showNat.simps) (simp add: digitsValue_snoc)
  qed
qed

lemma digitsValue_zeros: "digitsValue (replicate k (CHR ''0'') @ ds) = digitsValue ds"
proof -
  have "foldl (\<lambda>n c. 10 * n + (of_char c - 48)) (0::int) (replicate k (CHR ''0'')) = 0"
    by (induction k) simp_all
  then show ?thesis by (simp add: digitsValue_def)
qed

lemma showNat_0: "showNat 0 = ''0''"
  by code_simp

lemma toFixed_shape:
  assumes "0 \<le> m" "\<not> huge (Finite neg m e)"
  obtains a x y n where
    "toFixedJS (Finite neg m e) 2 =
       (if neg \<and> m \<noteq> 0 then ''-'' else []) @ a @ ''.'' @ [x, y]"
    and "a \<noteq> []" and "\<forall>c\<in>set a. isDigit c" and "isDigit x" and "isDigit y"
    and "digitsValue (a @ [x, y]) = n" and "0 \<le> n" and "m = 0 \<longrightarrow> n = 0"
    and "n = 0 \<longrightarrow> a = ''0'' \<and> x = CHR ''0'' \<and> y = CHR ''0''"
proof -
  define n where "n = (if 0 \<le> e then m * 2 ^ nat e * 10 ^ 2
                          else (2 * m * 10 ^ 2 + 2 ^ nat (- e)) div (2 * 2 ^ nat (- e)))"
  define ds where "ds = showNat n"
  define padded where "padded = replicate (3 - length ds) (CHR ''0'') @ ds"
  define a where "a = take (length padded - 2) padded"
  define b where "b = drop (length padded - 2) padded"
  have n: "0 \<le> n"
    using assms(1) by (simp add: n_def pos_imp_zdiv_nonneg_iff)
  have m0: "m = 0 \<longrightarrow> n = 0"
    by (simp add: n_def)
  have t: "toFixedJS (Finite neg m e) 2 =
      (if neg \<and> m \<noteq> 0 then ''-'' else []) @ a @ ''.'' @ b"
    using assms(2)
    by (simp add: toFixedJS_def Let_def n_def ds_def padded_def a_def b_def)
  have dig: "ds \<noteq> [] \<and> (\<forall>c\<in>set ds. isDigit c)"
    unfolding ds_def using n by (rule showNat_digits)
  have zero: "isDigit (CHR ''0'')" by (simp add: isDigit_def)
  have pd: "\<forall>c\<in>set padded. isDigit c"
    using dig zero by (auto simp: padded_def)
  have len: "3 \<le> length padded"
    by (simp add: padded_def)
  have a: "a \<noteq> []" "\<forall>c\<in>set a. isDigit c"
    using len pd by (auto simp: a_def dest: in_set_takeD)
  have "length b = 2" using len by (simp add: b_def)
  then obtain x y where b: "b = [x, y]"
    by (cases b; cases "tl b") auto
  have "set b \<subseteq> set padded" by (simp add: b_def set_drop_subset)
  with pd b have xy: "isDigit x" "isDigit y" by auto
  have ab: "a @ b = padded" by (simp add: a_def b_def)
  have "digitsValue padded = n"
    unfolding padded_def ds_def digitsValue_zeros using n by (rule digitsValue_showNat)
  with ab b have dv: "digitsValue (a @ [x, y]) = n" by simp
  have z: "n = 0 \<longrightarrow> a = ''0'' \<and> x = CHR ''0'' \<and> y = CHR ''0''"
  proof
    assume "n = 0"
    then have "padded = ''000''" by (simp add: padded_def ds_def showNat_0 numeral_2_eq_2)
    with b show "a = ''0'' \<and> x = CHR ''0'' \<and> y = CHR ''0''"
      by (auto simp: a_def b_def)
  qed
  from t b a xy dv n m0 z show ?thesis
    by (intro that [of a x y n]) simp_all
qed

lemma two_decimals:
  assumes "0 \<le> m" "\<not> huge (Finite neg m e)"
  shows "hasTwoDecimals (toFixedJS (Finite neg m e) 2)"
proof -
  obtain a x y n where
    t: "toFixedJS (Finite neg m e) 2 =
       (if neg \<and> m \<noteq> 0 then ''-'' else []) @ a @ ''.'' @ [x, y]"
    and a: "a \<noteq> []" "\<forall>c\<in>set a. isDigit c" and xy: "isDigit x" "isDigit y"
    using assms by (rule toFixed_shape)
  have dot: "\<not> isDigit (CHR ''.'')" and minus: "\<not> isDigit (CHR ''-'')"
    by (simp_all add: isDigit_def)
  have tw: "takeWhile isDigit (a @ ''.'' @ [x, y]) = a"
    using a(2) dot by (simp add: takeWhile_append2)
  have dw: "dropWhile isDigit (a @ ''.'' @ [x, y]) = ''.'' @ [x, y]"
    using a(2) dot by (simp add: dropWhile_append2)
  have "hd a \<noteq> CHR ''-''"
    using a minus by (cases a) auto
  with a(1) have strip:
    "(case (if neg \<and> m \<noteq> 0 then ''-'' else []) @ a @ ''.'' @ [x, y] of
        [] \<Rightarrow> []
      | c # r \<Rightarrow>
          if c = CHR ''-'' then r
          else (if neg \<and> m \<noteq> 0 then ''-'' else []) @ a @ ''.'' @ [x, y])
      = a @ ''.'' @ [x, y]"
    by (cases a) auto
  show ?thesis
    unfolding t hasTwoDecimals_def Let_def strip tw dw
    using a(1) xy by simp
qed

lemma digit_not_space: "isDigit c \<Longrightarrow> \<not> isWhiteSpace c"
  by (auto simp: isDigit_def isWhiteSpace_def)

lemma parse_rendered:
  assumes "a \<noteq> []" "\<forall>c\<in>set a. isDigit c" "isDigit x" "isDigit y"
  shows "parseFloatJS ((if s then ''-'' else []) @ a @ ''.'' @ [x, y]) =
         roundToDouble s (digitsValue (a @ [x, y])) 100"
proof -
  obtain h r where a: "a = h # r" using assms(1) by (cases a) auto
  have h: "isDigit h" and r: "\<forall>c\<in>set r. isDigit c" using assms(2) a by simp_all
  from h have hc: "h \<noteq> CHR ''-''" "h \<noteq> CHR ''+''" "h \<noteq> CHR ''I''" "\<not> isWhiteSpace h"
    by (auto simp: isDigit_def isWhiteSpace_def)
  have dot: "\<not> isDigit (CHR ''.'')" by (simp add: isDigit_def)
  have sp: "\<not> isWhiteSpace (CHR ''-'')" by (simp add: isWhiteSpace_def)
  have tw: "takeWhile isDigit (r @ [CHR ''.'', x, y]) = r"
    using r dot by (simp add: takeWhile_append2)
  have dw: "dropWhile isDigit (r @ [CHR ''.'', x, y]) = [CHR ''.'', x, y]"
    using r dot by (simp add: dropWhile_append2)
  show ?thesis
    using h hc sp assms(3,4)
    by (cases s) (simp_all add: a parseFloatJS_def Let_def tw dw exponentPart_def)
qed

lemma geZero_rounded:
  assumes "0 \<le> n"
  shows "geZeroJS (roundToDouble s n 100) = (n = 0 \<or> \<not> s)"
proof (cases "n = 0")
  case True
  then show ?thesis by (simp add: roundToDouble_def geZeroJS_def)
next
  case False
  with assms have "1 \<le> n" by simp
  then have "geZeroJS (roundToDouble s n 100) = (\<not> s)"
    by (rule rounded_sign) (simp_all add: bits_100)
  with False show ?thesis by simp
qed

lemma sign_of_rendered:
  assumes "0 \<le> m" "\<not> huge (Finite neg m e)"
  shows "geZeroJS (parseFloatJS (toFixedJS (Finite neg m e) 2)) =
         (geZeroJS (Finite neg m e) \<or> toFixedJS (Finite neg m e) 2 = ''-0.00'')"
proof -
  obtain a x y n where
    t: "toFixedJS (Finite neg m e) 2 =
       (if neg \<and> m \<noteq> 0 then ''-'' else []) @ a @ ''.'' @ [x, y]"
    and a: "a \<noteq> []" "\<forall>c\<in>set a. isDigit c" and xy: "isDigit x" "isDigit y"
    and dv: "digitsValue (a @ [x, y]) = n" and n: "0 \<le> n" and m0: "m = 0 \<longrightarrow> n = 0"
    and z: "n = 0 \<longrightarrow> a = ''0'' \<and> x = CHR ''0'' \<and> y = CHR ''0''"
    using assms by (rule toFixed_shape)
  have "geZeroJS (parseFloatJS (toFixedJS (Finite neg m e) 2)) =
      (n = 0 \<or> \<not> (neg \<and> m \<noteq> 0))"
    unfolding t parse_rendered [OF a xy] dv using n by (rule geZero_rounded)
  also have "\<dots> = (geZeroJS (Finite neg m e) \<or> toFixedJS (Finite neg m e) 2 = ''-0.00'')"
  proof (cases "neg \<and> m \<noteq> 0")
    case False
    then show ?thesis by (auto simp: geZeroJS_def)
  next
    case True
    with t have t': "toFixedJS (Finite neg m e) 2 = ''-'' @ a @ ''.'' @ [x, y]"
      by simp
    have "(n = 0) = (toFixedJS (Finite neg m e) 2 = ''-0.00'')"
      unfolding t'
    proof
      assume "n = 0"
      with z show "''-'' @ a @ ''.'' @ [x, y] = ''-0.00''" by simp
    next
      assume "''-'' @ a @ ''.'' @ [x, y] = ''-0.00''"
      then have "a @ ''.'' @ [x, y] = ''0.00''" by simp
      with a xy have "a = ''0'' \<and> x = CHR ''0'' \<and> y = CHR ''0''"
        by (cases a; cases "tl a") (auto simp: isDigit_def)
      with dv show "n = 0" by (simp add: digitsValue_def)
    qed
    with True show ?thesis by (auto simp: geZeroJS_def)
  qed
  finally show ?thesis .
qed

section \<open>Rendering huge doubles\<close>

lemma nearest_mem: "nearest v cs = Some c \<Longrightarrow> c \<in> set cs"
  by (induction cs arbitrary: c) (auto split: option.splits if_splits)

lemma shortestDigits_pos:
  assumes "1 \<le> v" "shortestDigits v x = (s, p)"
  shows "1 \<le> s"
proof (cases "find (\<lambda>k. digitCandidates v x k \<noteq> []) [1..<18]")
  case None
  with assms show ?thesis by (simp add: shortestDigits_def)
next
  case (Some k)
  show ?thesis
  proof (cases "nearest v (digitCandidates v x k)")
    case None
    with Some assms show ?thesis by (simp add: shortestDigits_def)
  next
    case c: (Some c)
    with Some assms(2) have "c = (s, p)" by (simp add: shortestDigits_def)
    with c have "(s, p) \<in> set (digitCandidates v x k)"
      by (simp add: nearest_mem)
    then have "(10::int) ^ (k - 1) \<le> s"
      by (auto simp: digitCandidates_def Let_def)
    moreover have "(1::int) \<le> 10 ^ (k - 1)" by simp
    ultimately show ?thesis by linarith
  qed
qed

lemma exponent_rendered:
  assumes "0 \<le> x"
  shows "exponentPart (''e+'' @ showNat x) = x"
proof -
  have "\<forall>c\<in>set (showNat x). isDigit c"
    using assms showNat_digits by blast
  then have tw: "takeWhile isDigit (showNat x) = showNat x"
    by (simp add: takeWhile_eq_all_conv)
  have "exponentPart (''e+'' @ showNat x) = digitsValue (takeWhile isDigit (showNat x))"
    by (simp add: exponentPart_def)
  also have "\<dots> = digitsValue (showNat x)"
    by (simp only: tw)
  also have "\<dots> = x"
    using assms by (rule digitsValue_showNat)
  finally show ?thesis .
qed

lemma parse_exponent_form:
  assumes "ds \<noteq> []" "\<forall>c\<in>set ds. isDigit c" "0 \<le> p"
  shows "parseFloatJS ((if s then ''-'' else []) @
           (if length ds = 1 then ds else take 1 ds @ ''.'' @ drop 1 ds) @ ''e+'' @
           showNat (p + int (length ds) - 1)) =
         roundToDouble s (digitsValue ds * 10 ^ nat p) 1"
proof -
  obtain h r where ds: "ds = h # r" using assms(1) by (cases ds) auto
  have h: "isDigit h" and r: "\<forall>c\<in>set r. isDigit c" using assms(2) ds by simp_all
  from h have hc: "h \<noteq> CHR ''-''" "h \<noteq> CHR ''+''" "h \<noteq> CHR ''I''" "\<not> isWhiteSpace h"
    by (auto simp: isDigit_def isWhiteSpace_def)
  have dot: "\<not> isDigit (CHR ''.'')" and ee: "\<not> isDigit (CHR ''e'')" by (simp_all add: isDigit_def)
  have sp: "\<not> isWhiteSpace (CHR ''-'')" by (simp add: isWhiteSpace_def)
  define x where "x = p + int (length ds) - 1"
  define w where "w = ''+'' @ showNat x"
  have x: "0 \<le> x" using assms(3) ds by (simp add: x_def)
  have "exponentPart (''e+'' @ showNat x) = x"
    using x by (rule exponent_rendered)
  then have ex: "exponentPart (CHR ''e'' # w) = x"
    by (simp add: w_def)
  have tw: "takeWhile isDigit (r @ CHR ''e'' # w) = r"
    using r ee by (simp add: takeWhile_append2)
  have dw: "dropWhile isDigit (r @ CHR ''e'' # w) = CHR ''e'' # w"
    using r ee by (simp add: dropWhile_append2)
  have k: "x - int (length r) = p" by (simp add: x_def ds)
  show ?thesis
  proof (cases "length ds = 1")
    case True
    then have r0: "r = []" by (simp add: ds)
    have t: "(if s then ''-'' else []) @
           (if length ds = 1 then ds else take 1 ds @ ''.'' @ drop 1 ds) @ ''e+'' @
           showNat (p + int (length ds) - 1) = (if s then ''-'' else []) @ h # CHR ''e'' # w"
      by (simp add: ds r0 w_def x_def)
    have "parseFloatJS ((if s then ''-'' else []) @ h # CHR ''e'' # w) =
        roundToDouble s (digitsValue [h] * 10 ^ nat p) 1"
      using h hc sp ee assms(3) k r0
      by (cases s) (simp_all add: parseFloatJS_def Let_def ex)
    then show ?thesis
      unfolding t by (simp add: ds r0)
  next
    case False
    have t: "(if s then ''-'' else []) @
           (if length ds = 1 then ds else take 1 ds @ ''.'' @ drop 1 ds) @ ''e+'' @
           showNat (p + int (length ds) - 1) =
           (if s then ''-'' else []) @ h # CHR ''.'' # r @ CHR ''e'' # w"
      using False by (simp add: ds w_def x_def)
    have "parseFloatJS ((if s then ''-'' else []) @ h # CHR ''.'' # r @ CHR ''e'' # w) =
        roundToDouble s (digitsValue (h # r) * 10 ^ nat p) 1"
      using h hc sp dot assms(3) k
      by (cases s) (simp_all add: parseFloatJS_def Let_def tw dw ex)
    then show ?thesis
      unfolding t by (simp add: ds)
  qed
qed

lemma huge_pos:
  assumes "huge (Finite neg m e)"
  shows "1 \<le> m \<and> 1 \<le> m * 2 ^ nat e"
proof -
  have p: "(0::int) < 2 ^ nat (- e)" "(0::int) < 2 ^ nat e" by simp_all
  have m: "1 \<le> m"
  proof (rule ccontr)
    assume "\<not> 1 \<le> m"
    then have m0: "m \<le> 0" by simp
    with p(2) have "m * 2 ^ nat e \<le> 0" by (simp add: mult_le_0_iff)
    moreover from assms have
      "(0 \<le> e \<and> 10 ^ 21 \<le> m * 2 ^ nat e) \<or> (\<not> 0 \<le> e \<and> 10 ^ 21 * 2 ^ nat (- e) \<le> m)"
      by (simp add: huge_def split: if_splits)
    ultimately show False using m0 p(1) by auto
  qed
  then have "1 * 1 \<le> m * 2 ^ nat e"
    by (intro mult_mono) simp_all
  with m show ?thesis by simp
qed

lemma sign_of_large:
  assumes "huge (Finite neg m e)"
  shows "geZeroJS (parseFloatJS (toFixedJS (Finite neg m e) 2)) = (\<not> neg)"
proof -
  from assms have m: "1 \<le> m" and v: "1 \<le> m * 2 ^ nat e"
    using huge_pos by blast+
  obtain s p where sp: "shortestDigits (m * 2 ^ nat e) (Finite False m e) = (s, p)"
    by (cases "shortestDigits (m * 2 ^ nat e) (Finite False m e)")
  from v sp have s: "1 \<le> s" by (rule shortestDigits_pos)
  define ds where "ds = showNat s"
  have dig: "ds \<noteq> [] \<and> (\<forall>c\<in>set ds. isDigit c)"
    unfolding ds_def using s by (intro showNat_digits) simp
  have dv: "digitsValue ds = s"
    unfolding ds_def using s by (intro digitsValue_showNat) simp
  have t: "toFixedJS (Finite neg m e) 2 =
      (if neg then ''-'' else []) @
      (if length ds = 1 then ds else take 1 ds @ ''.'' @ drop 1 ds) @ ''e+'' @
      showNat (int p + int (length ds) - 1)"
    using assms m by (simp add: toFixedJS_def largeToString_def sp ds_def Let_def)
  have "parseFloatJS (toFixedJS (Finite neg m e) 2) =
      roundToDouble neg (digitsValue ds * 10 ^ nat (int p)) 1"
    unfolding t using dig by (intro parse_exponent_form) simp_all
  moreover have "1 * 1 \<le> s * 10 ^ p"
    using s by (intro mult_mono) simp_all
  ultimately show ?thesis
    using rounded_sign [of "s * 10 ^ p" 1 neg] by (simp add: dv bits_1)
qed

lemma parse_names:
  "parseFloatJS ''NaN'' = NaN" "parseFloatJS ''Infinity'' = Infinite False"
  "parseFloatJS ''-Infinity'' = Infinite True"
  by code_simp+

lemma sign_kept:
  assumes "geZeroJS (parseFloatJS c)"
  shows "geZeroJS (parseFloatJS (toFixedJS (parseFloatJS c) 2))"
proof (cases "parseFloatJS c")
  case NaN
  with assms show ?thesis by (simp add: geZeroJS_def)
next
  case (Infinite neg)
  with assms show ?thesis by (simp add: toFixedJS_def geZeroJS_def parse_names)
next
  case (Finite neg m e)
  then have m: "0 \<le> m" by (rule parseFloatJS_mantissa)
  show ?thesis
  proof (cases "huge (Finite neg m e)")
    case True
    then have "1 \<le> m" using huge_pos by blast
    with assms Finite have "\<not> neg" by (simp add: geZeroJS_def)
    with True show ?thesis
      unfolding Finite by (simp add: sign_of_large)
  next
    case False
    with m assms show ?thesis
      unfolding Finite by (simp add: sign_of_rendered)
  qed
qed

lemma loss_kept:
  assumes "\<not> geZeroJS (parseFloatJS c)" "toFixedJS (parseFloatJS c) 2 \<noteq> ''-0.00''"
  shows "\<not> geZeroJS (parseFloatJS (toFixedJS (parseFloatJS c) 2))"
proof (cases "parseFloatJS c")
  case NaN
  then show ?thesis by (simp add: toFixedJS_def geZeroJS_def parse_names)
next
  case (Infinite neg)
  with assms show ?thesis by (simp add: toFixedJS_def geZeroJS_def parse_names)
next
  case (Finite neg m e)
  then have m: "0 \<le> m" by (rule parseFloatJS_mantissa)
  show ?thesis
  proof (cases "huge (Finite neg m e)")
    case True
    from assms(1) Finite have "neg" by (simp add: geZeroJS_def)
    with True show ?thesis
      unfolding Finite by (simp add: sign_of_large)
  next
    case False
    with m assms show ?thesis
      unfolding Finite by (simp add: sign_of_rendered)
  qed
qed

lemma two_decimals_any:
  assumes "parseFloatJS c = Finite neg m e" "\<not> huge (parseFloatJS c)"
  shows "hasTwoDecimals (toFixedJS (parseFloatJS c) 2)"
proof -
  from assms(1) have "0 \<le> m" by (rule parseFloatJS_mantissa)
  moreover from assms have "\<not> huge (Finite neg m e)"
    by simp
  ultimately show ?thesis
    unfolding assms(1) by (rule two_decimals)
qed

section \<open>The claims\<close>

text \<open>
  Claim C1. Whenever the trimmed, lower-cased message is a key of the knowledge table,
  \<open>getBotResponse\<close> answers with exactly the text stored under that key, without a chart
  (and without a request). The message \<^verbatim>\<open>what is a stock\<close> is answered by the exact
  lookup: the definition-style branch, which would have answered something else, is not
  reached.
\<close>

theorem trigger_answered_verbatim:
  "(map_of predefinedResponses (trim (toLowerCase userMessage)) = Some t \<longrightarrow>
      getBotResponse fp net userMessage = (\<lparr>reply = Text t, chartData = None\<rparr>, []))
   \<and> exactMatch (toLowerCase ''what is a stock'') = Some (Text what_is_a_stock_text)
   \<and> getBotResponse fp net ''what is a stock'' =
       (\<lparr>reply = Text what_is_a_stock_text, chartData = None\<rparr>, [])
   \<and> termQuery (toLowerCase ''what is a stock'') =
       Some (''I'll explain a stock. '' @ default_text)
   \<and> termQuery (toLowerCase ''what is a stock'') \<noteq> Some what_is_a_stock_text"
proof (intro conjI impI)
  assume "map_of predefinedResponses (trim (toLowerCase userMessage)) = Some t"
  then show "getBotResponse fp net userMessage = (\<lparr>reply = Text t, chartData = None\<rparr>, [])"
    by (rule trigger_reply)
next
  show "exactMatch (toLowerCase ''what is a stock'') = Some (Text what_is_a_stock_text)"
    by code_simp
next
  show "getBotResponse fp net ''what is a stock'' =
      (\<lparr>reply = Text what_is_a_stock_text, chartData = None\<rparr>, [])"
    by (rule trigger_reply) code_simp
next
  show "termQuery (toLowerCase ''what is a stock'') =
      Some (''I'll explain a stock. '' @ default_text)"
    by code_simp
next
  show "termQuery (toLowerCase ''what is a stock'') \<noteq> Some what_is_a_stock_text"
    by code_simp
qed

theorem trigger_answered_verbatim_witness:
  "map_of predefinedResponses (trim (toLowerCase ''  HeLLo '')) = Some hello_text
   \<and> (\<forall>(fp :: 'f number_ops) net. getBotResponse fp net ''  HeLLo '' =
         (\<lparr>reply = Text hello_text, chartData = None\<rparr>, []))"
proof -
  have h: "map_of predefinedResponses (trim (toLowerCase ''  HeLLo '')) = Some hello_text"
    by code_simp
  have "getBotResponse fp net ''  HeLLo '' = (\<lparr>reply = Text hello_text, chartData = None\<rparr>, [])"
    for fp :: "'f number_ops" and net
    using trigger_answered_verbatim [of "''  HeLLo ''" hello_text fp net] h by (elim conjE) (rule mp)
  with h show ?thesis by (intro conjI allI)
qed

text \<open>
  Claim C2, as the program has it. \<open>parseCommand\<close> lower-cases and trims the message,
  splits it at every single space and joins all pieces but the first with single spaces
  again: the command is the text before the first space and the arguments are everything
  after it, unchanged, so further spaces in a row stay in the arguments and a tab or a
  newline separates nothing. From \<^verbatim>\<open>"  Stock   AAPL  "\<close> it yields the command
  \<^verbatim>\<open>stock\<close> and the arguments \<^verbatim>\<open>"  aapl"\<close>; from the empty string it yields two empty
  strings. It is a total function: no input raises.
\<close>

theorem parseCommand_cuts_at_first_space:
  "parseCommand raw =
     \<lparr>command = takeWhile (\<lambda>c. c \<noteq> CHR '' '') (trim (toLowerCase raw)),
      args = drop 1 (dropWhile (\<lambda>c. c \<noteq> CHR '' '') (trim (toLowerCase raw)))\<rparr>
   \<and> parseCommand ''  Stock   AAPL  '' = \<lparr>command = ''stock'', args = ''  aapl''\<rparr>
   \<and> parseCommand (''stock'' @ [CHR 0x09] @ ''aapl'') =
       \<lparr>command = ''stock'' @ [CHR 0x09] @ ''aapl'', args = []\<rparr>
   \<and> parseCommand [] = \<lparr>command = [], args = []\<rparr>"
proof (intro conjI)
  show "parseCommand raw =
     \<lparr>command = takeWhile (\<lambda>c. c \<noteq> CHR '' '') (trim (toLowerCase raw)),
      args = drop 1 (dropWhile (\<lambda>c. c \<noteq> CHR '' '') (trim (toLowerCase raw)))\<rparr>"
    by (rule parseCommand_shape)
next
  show "parseCommand ''  Stock   AAPL  '' = \<lparr>command = ''stock'', args = ''  aapl''\<rparr>"
    by code_simp
next
  show "parseCommand (''stock'' @ [CHR 0x09] @ ''aapl'') =
       \<lparr>command = ''stock'' @ [CHR 0x09] @ ''aapl'', args = []\<rparr>"
    by code_simp
next
  show "parseCommand [] = \<lparr>command = [], args = []\<rparr>"
    by code_simp
qed

text \<open>
  The claim as the specification words it fails: the three spaces between the two words
  of \<^verbatim>\<open>"  Stock   AAPL  "\<close> are not read as one separator, and the arguments are not
  \<^verbatim>\<open>aapl\<close>.
\<close>

theorem parseCommand_keeps_inner_spaces:
  "args (parseCommand ''  Stock   AAPL  '') = ''  aapl''
   \<and> args (parseCommand ''  Stock   AAPL  '') \<noteq> ''aapl''"
  by code_simp

text \<open>
  Claim C3. For a stock command whose quote fetch succeeds and whose history fetch
  succeeds (the request resolves, the document carries no truthy \<^verbatim>\<open>Note\<close> and it has a
  \<^verbatim>\<open>Monthly Time Series\<close>), the response carries a chart whose series is made of the
  first twelve entries of the series as it arrived (newest first, so the twelve most recent
  months), reversed into chronological order, each entry projected to the first seven
  characters of its date and its \<^verbatim>\<open>4. close\<close> member parsed by \<open>parseFloat\<close>.
\<close>

theorem chart_is_last_twelve_months_oldest_first:
  assumes "command (parseCommand m) = ''stock''" and "args (parseCommand m) \<noteq> []"
    and "ticker = first (split (CHR '' '') (args (parseCommand m)))"
    and "fst (getStockData net ticker []) = Data q"
    and "net (TIME_SERIES_MONTHLY ticker) = Resolved d" and "\<not> truthy (Note d)"
    and "Monthly_Time_Series d = Some series"
  shows "getBotResponse fp net m =
    (\<lparr>reply = Text (formatStockResponse fp q ticker),
      chartData = Some \<lparr>symbol = toUpperCase ticker,
        points = map (\<lambda>(day, vals).
                        \<lparr>date = take 7 day,
                         price = parseFloat fp (ToString (map_of vals ''4. close''))\<rparr>)
                   (rev (take 12 series))\<rparr>\<rparr>,
     [GLOBAL_QUOTE ticker, TIME_SERIES_MONTHLY ticker])"
  using assms by (rule chart_reply)

theorem chart_is_last_twelve_months_oldest_first_witness:
  "command (parseCommand ''Stock AAPL'') = ''stock''
   \<and> args (parseCommand ''Stock AAPL'') \<noteq> []
   \<and> ''aapl'' = first (split (CHR '' '') (args (parseCommand ''Stock AAPL'')))
   \<and> fst (getStockData live ''aapl'' []) = Data sample_quote
   \<and> length sample_series = 13
   \<and> (\<forall>fp :: 'f number_ops. getBotResponse fp live ''Stock AAPL'' =
        (\<lparr>reply = Text (formatStockResponse fp sample_quote ''aapl''),
          chartData = Some \<lparr>symbol = ''AAPL'',
            points =
              [\<lparr>date = ''2023-04'', price = parseFloat fp ''169.68''\<rparr>,
               \<lparr>date = ''2023-05'', price = parseFloat fp ''177.25''\<rparr>,
               \<lparr>date = ''2023-06'', price = parseFloat fp ''193.97''\<rparr>,
               \<lparr>date = ''2023-07'', price = parseFloat fp ''196.45''\<rparr>,
               \<lparr>date = ''2023-08'', price = parseFloat fp ''187.87''\<rparr>,
               \<lparr>date = ''2023-09'', price = parseFloat fp ''171.21''\<rparr>,
               \<lparr>date = ''2023-10'', price = parseFloat fp ''170.77''\<rparr>,
               \<lparr>date = ''2023-11'', price = parseFloat fp ''189.95''\<rparr>,
               \<lparr>date = ''2023-12'', price = parseFloat fp ''192.53''\<rparr>,
               \<lparr>date = ''2024-01'', price = parseFloat fp ''184.40''\<rparr>,
               \<lparr>date = ''2024-02'', price = parseFloat fp ''180.75''\<rparr>,
               \<lparr>date = ''2024-03'', price = parseFloat fp ''171.48''\<rparr>]\<rparr>\<rparr>,
         [GLOBAL_QUOTE ''aapl'', TIME_SERIES_MONTHLY ''aapl'']))"
proof -
  have c: "command (parseCommand ''Stock AAPL'') = ''stock''" by code_simp
  have a: "args (parseCommand ''Stock AAPL'') \<noteq> []" by code_simp
  have t: "''aapl'' = first (split (CHR '' '') (args (parseCommand ''Stock AAPL'')))"
    by code_simp
  have q: "fst (getStockData live ''aapl'' []) = Data sample_quote" by code_simp
  have n: "length sample_series = 13" by code_simp
  have u: "toUpperCase ''aapl'' = ''AAPL''" by code_simp
  have h: "live (TIME_SERIES_MONTHLY ''aapl'') =
      Resolved \<lparr>Note = None, Global_Quote = None, Monthly_Time_Series = Some sample_series\<rparr>"
    by (simp add: live_def)
  have "getBotResponse fp live ''Stock AAPL'' =
        (\<lparr>reply = Text (formatStockResponse fp sample_quote ''aapl''),
          chartData = Some \<lparr>symbol = ''AAPL'',
            points =
              [\<lparr>date = ''2023-04'', price = parseFloat fp ''169.68''\<rparr>,
               \<lparr>date = ''2023-05'', price = parseFloat fp ''177.25''\<rparr>,
               \<lparr>date = ''2023-06'', price = parseFloat fp ''193.97''\<rparr>,
               \<lparr>date = ''2023-07'', price = parseFloat fp ''196.45''\<rparr>,
               \<lparr>date = ''2023-08'', price = parseFloat fp ''187.87''\<rparr>,
               \<lparr>date = ''2023-09'', price = parseFloat fp ''171.21''\<rparr>,
               \<lparr>date = ''2023-10'', price = parseFloat fp ''170.77''\<rparr>,
               \<lparr>date = ''2023-11'', price = parseFloat fp ''189.95''\<rparr>,
               \<lparr>date = ''2023-12'', price = parseFloat fp ''192.53''\<rparr>,
               \<lparr>date = ''2024-01'', price = parseFloat fp ''184.40''\<rparr>,
               \<lparr>date = ''2024-02'', price = parseFloat fp ''180.75''\<rparr>,
               \<lparr>date = ''2024-03'', price = parseFloat fp ''171.48''\<rparr>]\<rparr>\<rparr>,
         [GLOBAL_QUOTE ''aapl'', TIME_SERIES_MONTHLY ''aapl''])"
    for fp :: "'f number_ops"
    using chart_is_last_twelve_months_oldest_first
      [where net = live and fp = fp and series = sample_series, OF c a t q h]
    by (simp add: truthy_def u sample_series_def ToString_def)
  with c a t q n show ?thesis by (intro conjI allI)
qed

text \<open>
  Claim C4, as the program has it. When the document of the quote request carries a
  \<^verbatim>\<open>Note\<close> that is a non-empty string, the reply to a stock command is the rate-limit
  message, without a chart, whatever the history request returns and whatever else the
  document holds.
\<close>

theorem rate_limit_note_answered:
  assumes "command (parseCommand m) = ''stock''" and "args (parseCommand m) \<noteq> []"
    and "ticker = first (split (CHR '' '') (args (parseCommand m)))"
    and "net (GLOBAL_QUOTE ticker) = Resolved d" and "Note d = Some note" and "note \<noteq> []"
  shows "getBotResponse fp net m =
    (\<lparr>reply = Text ''API rate limit reached. Please try again in a minute.'', chartData = None\<rparr>,
     [GLOBAL_QUOTE ticker, TIME_SERIES_MONTHLY ticker])"
  using assms by (rule rate_limit_reply)

theorem rate_limit_note_answered_witness:
  "command (parseCommand ''stock tsla'') = ''stock''
   \<and> args (parseCommand ''stock tsla'') \<noteq> []
   \<and> ''tsla'' = first (split (CHR '' '') (args (parseCommand ''stock tsla'')))
   \<and> throttled (GLOBAL_QUOTE ''tsla'') =
        Resolved \<lparr>Note = Some ''Thank you for using Alpha Vantage!'',
          Global_Quote = Some sample_quote, Monthly_Time_Series = None\<rparr>
   \<and> (\<forall>fp :: 'f number_ops. getBotResponse fp throttled ''stock tsla'' =
        (\<lparr>reply = Text ''API rate limit reached. Please try again in a minute.'',
          chartData = None\<rparr>,
         [GLOBAL_QUOTE ''tsla'', TIME_SERIES_MONTHLY ''tsla'']))"
proof -
  have c: "command (parseCommand ''stock tsla'') = ''stock''" by code_simp
  have a: "args (parseCommand ''stock tsla'') \<noteq> []" by code_simp
  have t: "''tsla'' = first (split (CHR '' '') (args (parseCommand ''stock tsla'')))"
    by code_simp
  have h: "throttled (GLOBAL_QUOTE ''tsla'') =
      Resolved \<lparr>Note = Some ''Thank you for using Alpha Vantage!'',
        Global_Quote = Some sample_quote, Monthly_Time_Series = None\<rparr>"
    by (simp add: throttled_def)
  have "getBotResponse fp throttled ''stock tsla'' =
        (\<lparr>reply = Text ''API rate limit reached. Please try again in a minute.'',
          chartData = None\<rparr>,
         [GLOBAL_QUOTE ''tsla'', TIME_SERIES_MONTHLY ''tsla''])"
    for fp :: "'f number_ops"
    using rate_limit_note_answered [where net = throttled and fp = fp, OF c a t h]
    by simp
  with c a t h show ?thesis by (intro conjI allI)
qed

text \<open>
  The claim as the specification words it fails: the program tests the marker for
  truthiness, not for presence. A document whose \<^verbatim>\<open>Note\<close> is present and is the empty
  string is not read as throttled; here the reply is the not-found message.
\<close>

theorem empty_note_is_not_a_rate_limit:
  "(\<forall>s. \<exists>d. empty_note (GLOBAL_QUOTE s) = Resolved d \<and> Note d \<noteq> None)
   \<and> (\<forall>fp :: 'f number_ops. getBotResponse fp empty_note ''stock tsla'' =
        (\<lparr>reply = Text ''Could not find stock data for symbol: tsla'', chartData = None\<rparr>,
         [GLOBAL_QUOTE ''tsla'', TIME_SERIES_MONTHLY ''tsla'']))
   \<and> ''Could not find stock data for symbol: tsla'' \<noteq>
       ''API rate limit reached. Please try again in a minute.''"
proof -
  have c: "command (parseCommand ''stock tsla'') = ''stock''" by code_simp
  have a: "args (parseCommand ''stock tsla'') \<noteq> []" by code_simp
  have t: "''tsla'' = first (split (CHR '' '') (args (parseCommand ''stock tsla'')))"
    by code_simp
  have h: "empty_note (GLOBAL_QUOTE ''tsla'') =
      Resolved \<lparr>Note = Some [], Global_Quote = None, Monthly_Time_Series = None\<rparr>"
    by (simp add: empty_note_def)
  have "getBotResponse fp empty_note ''stock tsla'' =
        (\<lparr>reply = Text ''Could not find stock data for symbol: tsla'', chartData = None\<rparr>,
         [GLOBAL_QUOTE ''tsla'', TIME_SERIES_MONTHLY ''tsla''])"
    for fp :: "'f number_ops"
    using not_found_reply [where net = empty_note and fp = fp, OF c a t h]
    by (simp add: truthy_def)
  then show ?thesis by (simp add: empty_note_def)
qed

text \<open>
  Claim C5. What the program does for \<^verbatim>\<open>stock ZZZZ\<close> when the quote object is empty: the
  not-found message names the symbol as it stands in the lower-cased message,
  \<^verbatim>\<open>zzzz\<close>, and not \<^verbatim>\<open>ZZZZ\<close>. The quote summary and the chart payload upper-case
  the symbol for display; this message does not.
\<close>

theorem not_found_names_lower_case_symbol:
  "getBotResponse fp unknown_symbol ''stock ZZZZ'' =
     (\<lparr>reply = Text ''Could not find stock data for symbol: zzzz'', chartData = None\<rparr>,
      [GLOBAL_QUOTE ''zzzz'', TIME_SERIES_MONTHLY ''zzzz''])
   \<and> \<not> includesString ''Could not find stock data for symbol: zzzz'' ''ZZZZ''"
proof -
  have c: "command (parseCommand ''stock ZZZZ'') = ''stock''" by code_simp
  have a: "args (parseCommand ''stock ZZZZ'') \<noteq> []" by code_simp
  have t: "''zzzz'' = first (split (CHR '' '') (args (parseCommand ''stock ZZZZ'')))"
    by code_simp
  have h: "unknown_symbol (GLOBAL_QUOTE ''zzzz'') =
      Resolved \<lparr>Note = None, Global_Quote = Some [], Monthly_Time_Series = None\<rparr>"
    by (simp add: unknown_symbol_def)
  have i: "\<not> includesString ''Could not find stock data for symbol: zzzz'' ''ZZZZ''"
    by code_simp
  have "getBotResponse fp unknown_symbol ''stock ZZZZ'' =
     (\<lparr>reply = Text ''Could not find stock data for symbol: zzzz'', chartData = None\<rparr>,
      [GLOBAL_QUOTE ''zzzz'', TIME_SERIES_MONTHLY ''zzzz''])"
    using not_found_reply [where net = unknown_symbol and fp = fp, OF c a t h]
    by (simp add: truthy_def)
  with i show ?thesis by (intro conjI)
qed

text \<open>
  Claim C6. For a stock command whose quote fetch succeeds and whose history fetch fails,
  with whatever error, the reply is the formatted quote summary and nothing else: no
  chart, and no error text. The history fetch fails in exactly three ways (the request
  is rejected, the document carries a truthy \<^verbatim>\<open>Note\<close>, or it has no
  \<^verbatim>\<open>Monthly Time Series\<close>), see \<open>history_failure_kinds\<close>.
\<close>

theorem history_failure_degrades_to_summary:
  assumes "command (parseCommand m) = ''stock''" and "args (parseCommand m) \<noteq> []"
    and "ticker = first (split (CHR '' '') (args (parseCommand m)))"
    and "fst (getStockData net ticker []) = Data q"
    and "fst (getHistoricalData fp net ticker []) = Error e"
  shows "getBotResponse fp net m =
    (\<lparr>reply = Text (formatStockResponse fp q ticker), chartData = None\<rparr>,
     [GLOBAL_QUOTE ticker, TIME_SERIES_MONTHLY ticker])"
  using assms by (rule degraded_reply)

theorem history_failure_degrades_to_summary_witness:
  "command (parseCommand ''stock aapl'') = ''stock''
   \<and> args (parseCommand ''stock aapl'') \<noteq> []
   \<and> ''aapl'' = first (split (CHR '' '') (args (parseCommand ''stock aapl'')))
   \<and> fst (getStockData history_down ''aapl'' []) = Data sample_quote
   \<and> (\<forall>fp :: 'f number_ops. fst (getHistoricalData fp history_down ''aapl'' []) =
          Error ''Failed to fetch historical data'')
   \<and> (\<forall>fp :: 'f number_ops. getBotResponse fp history_down ''stock aapl'' =
        (\<lparr>reply = Text (formatStockResponse fp sample_quote ''aapl''), chartData = None\<rparr>,
         [GLOBAL_QUOTE ''aapl'', TIME_SERIES_MONTHLY ''aapl'']))"
proof -
  have c: "command (parseCommand ''stock aapl'') = ''stock''" by code_simp
  have a: "args (parseCommand ''stock aapl'') \<noteq> []" by code_simp
  have t: "''aapl'' = first (split (CHR '' '') (args (parseCommand ''stock aapl'')))"
    by code_simp
  have q: "fst (getStockData history_down ''aapl'' []) = Data sample_quote" by code_simp
  have h: "fst (getHistoricalData fp history_down ''aapl'' []) =
      Error ''Failed to fetch historical data''" for fp :: "'f number_ops"
    by (simp add: getHistoricalData_cases history_down_def)
  have "getBotResponse fp history_down ''stock aapl'' =
        (\<lparr>reply = Text (formatStockResponse fp sample_quote ''aapl''), chartData = None\<rparr>,
         [GLOBAL_QUOTE ''aapl'', TIME_SERIES_MONTHLY ''aapl''])"
    for fp :: "'f number_ops"
    using history_failure_degrades_to_summary [where net = history_down, OF c a t q h] .
  with c a t q h show ?thesis by (intro conjI allI)
qed

text \<open>
  Claim C7, as the program has it. A message that does not take the stock branch (its
  command is not \<^verbatim>\<open>stock\<close>, or no argument follows) and whose lower-cased form contains
  a trigger is answered with the text of the first trigger of the table, in the order of
  declaration, that it contains: of two triggers it contains, the one declared later
  never answers. The position of the triggers inside the message plays no part.
\<close>

theorem earliest_declared_trigger_answers:
  assumes "\<not> (command (parseCommand m) = ''stock'' \<and> args (parseCommand m) \<noteq> [])"
    and "i < length predefinedResponses"
    and "includesString (toLowerCase m) (fst (predefinedResponses ! i))"
    and "\<forall>j<i. \<not> includesString (toLowerCase m) (fst (predefinedResponses ! j))"
  shows "getBotResponse fp net m =
    (\<lparr>reply = Text (snd (predefinedResponses ! i)), chartData = None\<rparr>, [])"
  using assms by (rule first_trigger)

theorem earliest_declared_trigger_answers_witness:
  "\<not> (command (parseCommand ''What is a stock? HELP!'') = ''stock''
       \<and> args (parseCommand ''What is a stock? HELP!'') \<noteq> [])
   \<and> fst (predefinedResponses ! 1) = ''help''
   \<and> fst (predefinedResponses ! 2) = ''what is a stock''
   \<and> includesString (toLowerCase ''What is a stock? HELP!'') (fst (predefinedResponses ! 1))
   \<and> includesString (toLowerCase ''What is a stock? HELP!'') (fst (predefinedResponses ! 2))
   \<and> \<not> includesString (toLowerCase ''What is a stock? HELP!'') (fst (predefinedResponses ! 0))
   \<and> (\<forall>(fp :: 'f number_ops) net. getBotResponse fp net ''What is a stock? HELP!'' =
         (\<lparr>reply = Text help_text, chartData = None\<rparr>, []))"
proof -
  have c: "\<not> (command (parseCommand ''What is a stock? HELP!'') = ''stock''
       \<and> args (parseCommand ''What is a stock? HELP!'') \<noteq> [])"
    by code_simp
  have k1: "fst (predefinedResponses ! 1) = ''help''"
    by (simp add: predefinedResponses_def)
  have k2: "fst (predefinedResponses ! 2) = ''what is a stock''"
    by (simp add: predefinedResponses_def)
  have t1: "snd (predefinedResponses ! 1) = help_text"
    by (simp add: predefinedResponses_def)
  have n: "(1::nat) < length predefinedResponses"
    by (simp add: predefinedResponses_def)
  have i1: "includesString (toLowerCase ''What is a stock? HELP!'') (fst (predefinedResponses ! 1))"
    by code_simp
  have i2: "includesString (toLowerCase ''What is a stock? HELP!'') (fst (predefinedResponses ! 2))"
    by code_simp
  have i0: "\<not> includesString (toLowerCase ''What is a stock? HELP!'') (fst (predefinedResponses ! 0))"
    by code_simp
  from i0 have before:
    "\<forall>j<1. \<not> includesString (toLowerCase ''What is a stock? HELP!'') (fst (predefinedResponses ! j))"
    by simp
  have "getBotResponse fp net ''What is a stock? HELP!'' =
         (\<lparr>reply = Text help_text, chartData = None\<rparr>, [])"
    for fp :: "'f number_ops" and net
    using earliest_declared_trigger_answers [where fp = fp and net = net, OF c n i1 before]
    by (simp only: t1)
  with c k1 k2 i1 i2 i0 show ?thesis by (intro conjI allI)
qed

text \<open>
  The claim as the specification words it fails on a stock command: the message
  \<^verbatim>\<open>stock hello help\<close> contains two triggers, and it is answered by the stock branch,
  which asks for the quote of the symbol \<^verbatim>\<open>hello\<close>; with the network down the reply is
  the failure text, not the answer stored under \<^verbatim>\<open>hello\<close>.
\<close>

theorem stock_command_precedes_triggers:
  "includesString (toLowerCase ''stock hello help'') ''hello''
   \<and> includesString (toLowerCase ''stock hello help'') ''help''
   \<and> (\<forall>fp :: 'f number_ops. getBotResponse fp offline ''stock hello help'' =
        (\<lparr>reply = Text ''Failed to fetch stock data. Please try again.'', chartData = None\<rparr>,
         [GLOBAL_QUOTE ''hello'', TIME_SERIES_MONTHLY ''hello'']))
   \<and> ''Failed to fetch stock data. Please try again.'' \<noteq> hello_text"
proof -
  have c: "command (parseCommand ''stock hello help'') = ''stock''" by code_simp
  have a: "args (parseCommand ''stock hello help'') \<noteq> []" by code_simp
  have t: "''hello'' = first (split (CHR '' '') (args (parseCommand ''stock hello help'')))"
    by code_simp
  have h: "offline (GLOBAL_QUOTE ''hello'') = Rejected"
    by (simp add: offline_def)
  have i1: "includesString (toLowerCase ''stock hello help'') ''hello''" by code_simp
  have i2: "includesString (toLowerCase ''stock hello help'') ''help''" by code_simp
  have d: "''Failed to fetch stock data. Please try again.'' \<noteq> hello_text" by code_simp
  have "getBotResponse fp offline ''stock hello help'' =
        (\<lparr>reply = Text ''Failed to fetch stock data. Please try again.'', chartData = None\<rparr>,
         [GLOBAL_QUOTE ''hello'', TIME_SERIES_MONTHLY ''hello''])"
    for fp :: "'f number_ops"
    using quote_rejected_reply [where net = offline and fp = fp, OF c a t h] .
  with i1 i2 d show ?thesis by (intro conjI allI)
qed

text \<open>
  Claim C8. What the program does for the message \<^verbatim>\<open>__proto__\<close>: the exact lookup finds
  the member of that name that the table inherits, which is truthy, and the resolver
  returns it as the text of its payload. The payload carries the prototype object where a
  text belongs; the resolver has returned, so no \<^verbatim>\<open>catch\<close> is entered and no error text
  takes the place of the object. The name \<^verbatim>\<open>constructor\<close> is answered with a function
  in the same way, and in the definition-style branch the inherited member is printed
  into the answer. A request that throws, by contrast, ends in an error text, and the
  empty message in the default text.
\<close>

theorem inherited_name_answered_with_object:
  "getBotResponse fp net ''__proto__'' = (\<lparr>reply = ObjectPrototype, chartData = None\<rparr>, [])
   \<and> (\<forall>t. reply (fst (getBotResponse fp net ''__proto__'')) \<noteq> Text t)
   \<and> getBotResponse fp net ''Constructor'' =
       (\<lparr>reply = NativeFunction ''Object'', chartData = None\<rparr>, [])
   \<and> getBotResponse fp net ''explain constructor'' =
       (\<lparr>reply = Text ''I'll explain constructor. function Object() { [native code] }'',
         chartData = None\<rparr>, [])
   \<and> getBotResponse fp offline ''stock aapl'' =
       (\<lparr>reply = Text ''Failed to fetch stock data. Please try again.'', chartData = None\<rparr>,
        [GLOBAL_QUOTE ''aapl'', TIME_SERIES_MONTHLY ''aapl''])
   \<and> getBotResponse fp net [] = (\<lparr>reply = Text default_text, chartData = None\<rparr>, [])"
proof -
  have p1: "\<not> (command (parseCommand ''__proto__'') = ''stock'' \<and>
      args (parseCommand ''__proto__'') \<noteq> [])"
    by code_simp
  have k1: "knowledgeReply (toLowerCase ''__proto__'') = ObjectPrototype"
    by code_simp
  have r1: "getBotResponse fp net ''__proto__'' =
      (\<lparr>reply = ObjectPrototype, chartData = None\<rparr>, [])"
    using knowledge_branch [OF p1, of fp net] by (simp only: k1)
  have p2: "\<not> (command (parseCommand ''Constructor'') = ''stock'' \<and>
      args (parseCommand ''Constructor'') \<noteq> [])"
    by code_simp
  have k2: "knowledgeReply (toLowerCase ''Constructor'') = NativeFunction ''Object''"
    by code_simp
  have r2: "getBotResponse fp net ''Constructor'' =
      (\<lparr>reply = NativeFunction ''Object'', chartData = None\<rparr>, [])"
    using knowledge_branch [OF p2, of fp net] by (simp only: k2)
  have p3: "\<not> (command (parseCommand ''explain constructor'') = ''stock'' \<and>
      args (parseCommand ''explain constructor'') \<noteq> [])"
    by code_simp
  have k3: "knowledgeReply (toLowerCase ''explain constructor'') =
      Text ''I'll explain constructor. function Object() { [native code] }''"
    by code_simp
  have r3: "getBotResponse fp net ''explain constructor'' =
      (\<lparr>reply = Text ''I'll explain constructor. function Object() { [native code] }'',
        chartData = None\<rparr>, [])"
    using knowledge_branch [OF p3, of fp net] by (simp only: k3)
  have c: "command (parseCommand ''stock aapl'') = ''stock''" by code_simp
  have a: "args (parseCommand ''stock aapl'') \<noteq> []" by code_simp
  have t: "''aapl'' = first (split (CHR '' '') (args (parseCommand ''stock aapl'')))"
    by code_simp
  have h: "offline (GLOBAL_QUOTE ''aapl'') = Rejected"
    by (simp add: offline_def)
  have r4: "getBotResponse fp offline ''stock aapl'' =
      (\<lparr>reply = Text ''Failed to fetch stock data. Please try again.'', chartData = None\<rparr>,
       [GLOBAL_QUOTE ''aapl'', TIME_SERIES_MONTHLY ''aapl''])"
    using quote_rejected_reply [where net = offline and fp = fp, OF c a t h] .
  have p5: "\<not> (command (parseCommand []) = ''stock'' \<and> args (parseCommand []) \<noteq> [])"
    by code_simp
  have k5: "knowledgeReply (toLowerCase []) = Text default_text"
    by code_simp
  have r5: "getBotResponse fp net [] = (\<lparr>reply = Text default_text, chartData = None\<rparr>, [])"
    using knowledge_branch [OF p5, of fp net] by (simp only: k5)
  from r1 have "\<forall>t. reply (fst (getBotResponse fp net ''__proto__'')) \<noteq> Text t"
    by simp
  with r1 r2 r3 r4 r5 show ?thesis by (intro conjI)
qed

text \<open>
  Claim C9, as the program has it. In the quote summary the price, the change, the high
  and the low are each \<open>parseFloat\<close> of the member rendered by \<open>toFixed\<close> with 2, and the
  percent change is the member as it is (\<^verbatim>\<open>undefined\<close> when it is missing). With the
  numbers of JavaScript: a member that parses to a finite number below \<open>10\<^sup>2\<^sup>1\<close> in
  magnitude is rendered with exactly two decimal places; the summary of a change that is
  at least 0 starts with the up glyph; and the summary of a change that is not at least 0
  (a negative number, or not a number) starts with the down glyph, unless the change is
  rendered as \<^verbatim>\<open>-0.00\<close>, of which nothing is said here.
\<close>

theorem summary_numbers_and_glyph:
  "formatStockResponse fp q s =
     (if geZero fp
           (parseFloat fp (toFixed fp (parseFloat fp (ToString (map_of q ''09. change''))) 2))
      then up_glyph else down_glyph) @
     '' '' @ toUpperCase s @ '' Stock Info:'' @ nl @
     ''Price: $'' @ toFixed fp (parseFloat fp (ToString (map_of q ''05. price''))) 2 @ nl @
     ''Change: $'' @ toFixed fp (parseFloat fp (ToString (map_of q ''09. change''))) 2 @
       '' ('' @ ToString (map_of q ''10. change percent'') @ '')'' @ nl @
     ''Today's High: $'' @ toFixed fp (parseFloat fp (ToString (map_of q ''03. high''))) 2 @ nl @
     ''Today's Low: $'' @ toFixed fp (parseFloat fp (ToString (map_of q ''04. low''))) 2
   \<and> (parseFloatJS t = Finite neg m e \<and> \<not> huge (parseFloatJS t) \<longrightarrow>
        hasTwoDecimals (toFixedJS (parseFloatJS t) 2))
   \<and> (geZeroJS (parseFloatJS (ToString (map_of q ''09. change''))) \<longrightarrow>
        prefix (up_glyph @ '' '') (formatStockResponse jsNumbers q s))
   \<and> (\<not> geZeroJS (parseFloatJS (ToString (map_of q ''09. change''))) \<and>
      toFixedJS (parseFloatJS (ToString (map_of q ''09. change''))) 2 \<noteq> ''-0.00'' \<longrightarrow>
        prefix (down_glyph @ '' '') (formatStockResponse jsNumbers q s))"
proof (intro conjI impI)
  show "formatStockResponse fp q s =
     (if geZero fp
           (parseFloat fp (toFixed fp (parseFloat fp (ToString (map_of q ''09. change''))) 2))
      then up_glyph else down_glyph) @
     '' '' @ toUpperCase s @ '' Stock Info:'' @ nl @
     ''Price: $'' @ toFixed fp (parseFloat fp (ToString (map_of q ''05. price''))) 2 @ nl @
     ''Change: $'' @ toFixed fp (parseFloat fp (ToString (map_of q ''09. change''))) 2 @
       '' ('' @ ToString (map_of q ''10. change percent'') @ '')'' @ nl @
     ''Today's High: $'' @ toFixed fp (parseFloat fp (ToString (map_of q ''03. high''))) 2 @ nl @
     ''Today's Low: $'' @ toFixed fp (parseFloat fp (ToString (map_of q ''04. low''))) 2"
    by (simp add: formatStockResponse_def Let_def)
next
  assume "parseFloatJS t = Finite neg m e \<and> \<not> huge (parseFloatJS t)"
  then have "parseFloatJS t = Finite neg m e" and "\<not> huge (parseFloatJS t)"
    by blast+
  then show "hasTwoDecimals (toFixedJS (parseFloatJS t) 2)"
    by (rule two_decimals_any)
next
  define c where "c = ToString (map_of q ''09. change'')"
  assume "geZeroJS (parseFloatJS (ToString (map_of q ''09. change'')))"
  then have "geZeroJS (parseFloatJS (toFixedJS (parseFloatJS c) 2))"
    unfolding c_def by (rule sign_kept)
  then show "prefix (up_glyph @ '' '') (formatStockResponse jsNumbers q s)"
    by (simp add: formatStockResponse_def Let_def jsNumbers_def c_def)
next
  define c where "c = ToString (map_of q ''09. change'')"
  assume "\<not> geZeroJS (parseFloatJS (ToString (map_of q ''09. change''))) \<and>
      toFixedJS (parseFloatJS (ToString (map_of q ''09. change''))) 2 \<noteq> ''-0.00''"
  then have "\<not> geZeroJS (parseFloatJS c)" and "toFixedJS (parseFloatJS c) 2 \<noteq> ''-0.00''"
    unfolding c_def by blast+
  then have "\<not> geZeroJS (parseFloatJS (toFixedJS (parseFloatJS c) 2))"
    by (rule loss_kept)
  then show "prefix (down_glyph @ '' '') (formatStockResponse jsNumbers q s)"
    by (simp add: formatStockResponse_def Let_def jsNumbers_def c_def)
qed

theorem summary_numbers_and_glyph_witness:
  "parseFloatJS ''2.50'' = Finite False 5629499534213120 (- 51)
   \<and> \<not> huge (parseFloatJS ''2.50'')
   \<and> hasTwoDecimals (toFixedJS (parseFloatJS ''2.50'') 2)
   \<and> geZeroJS (parseFloatJS (ToString (map_of sample_quote ''09. change'')))
   \<and> prefix (up_glyph @ '' '') (formatStockResponse jsNumbers sample_quote ''aapl'')
   \<and> formatStockResponse jsNumbers sample_quote ''aapl'' =
         up_glyph @ '' AAPL Stock Info:'' @ nl @
         ''Price: $150.00'' @ nl @
         ''Change: $2.50 (1.69%)'' @ nl @
         ''Today's High: $151.00'' @ nl @
         ''Today's Low: $148.00''
   \<and> \<not> geZeroJS (parseFloatJS (ToString (map_of sample_loss ''09. change'')))
   \<and> toFixedJS (parseFloatJS (ToString (map_of sample_loss ''09. change''))) 2 \<noteq> ''-0.00''
   \<and> prefix (down_glyph @ '' '') (formatStockResponse jsNumbers sample_loss ''aapl'')
   \<and> formatStockResponse jsNumbers sample_loss ''aapl'' =
         down_glyph @ '' AAPL Stock Info:'' @ nl @
         ''Price: $146.25'' @ nl @
         ''Change: $-3.75 (-2.50%)'' @ nl @
         ''Today's High: $151.00'' @ nl @
         ''Today's Low: $144.10''
   \<and> \<not> geZeroJS (parseFloatJS (ToString (map_of vast_loss ''09. change'')))
   \<and> toFixedJS (parseFloatJS (ToString (map_of vast_loss ''09. change''))) 2 \<noteq> ''-0.00''
   \<and> prefix (down_glyph @ '' '') (formatStockResponse jsNumbers vast_loss ''aapl'')"
proof -
  have p: "parseFloatJS ''2.50'' = Finite False 5629499534213120 (- 51)" by code_simp
  have h: "\<not> huge (parseFloatJS ''2.50'')" by code_simp
  have two: "hasTwoDecimals (toFixedJS (parseFloatJS ''2.50'') 2)"
    using summary_numbers_and_glyph [where t = "''2.50''", THEN conjunct2, THEN conjunct1] p h
    by blast
  have g: "geZeroJS (parseFloatJS (ToString (map_of sample_quote ''09. change'')))"
    by code_simp
  have up: "prefix (up_glyph @ '' '') (formatStockResponse jsNumbers sample_quote ''aapl'')"
    using summary_numbers_and_glyph
      [where q = sample_quote and s = "''aapl''", THEN conjunct2, THEN conjunct2, THEN conjunct1]
      g
    by (rule mp)
  have full: "formatStockResponse jsNumbers sample_quote ''aapl'' =
         up_glyph @ '' AAPL Stock Info:'' @ nl @
         ''Price: $150.00'' @ nl @
         ''Change: $2.50 (1.69%)'' @ nl @
         ''Today's High: $151.00'' @ nl @
         ''Today's Low: $148.00''"
    by code_simp
  have l1: "\<not> geZeroJS (parseFloatJS (ToString (map_of sample_loss ''09. change'')))"
    by code_simp
  have l2: "toFixedJS (parseFloatJS (ToString (map_of sample_loss ''09. change''))) 2 \<noteq> ''-0.00''"
    by code_simp
  have down: "prefix (down_glyph @ '' '') (formatStockResponse jsNumbers sample_loss ''aapl'')"
    using summary_numbers_and_glyph
      [where q = sample_loss and s = "''aapl''", THEN conjunct2, THEN conjunct2, THEN conjunct2]
      l1 l2
    by blast
  have loss: "formatStockResponse jsNumbers sample_loss ''aapl'' =
         down_glyph @ '' AAPL Stock Info:'' @ nl @
         ''Price: $146.25'' @ nl @
         ''Change: $-3.75 (-2.50%)'' @ nl @
         ''Today's High: $151.00'' @ nl @
         ''Today's Low: $144.10''"
    by code_simp
  have v1: "\<not> geZeroJS (parseFloatJS (ToString (map_of vast_loss ''09. change'')))"
    by code_simp
  have v2: "toFixedJS (parseFloatJS (ToString (map_of vast_loss ''09. change''))) 2 \<noteq> ''-0.00''"
    by code_simp
  have vast: "prefix (down_glyph @ '' '') (formatStockResponse jsNumbers vast_loss ''aapl'')"
    using summary_numbers_and_glyph
      [where q = vast_loss and s = "''aapl''", THEN conjunct2, THEN conjunct2, THEN conjunct2]
      v1 v2
    by blast
  from p h two g up full l1 l2 down loss v1 v2 vast show ?thesis by (intro conjI)
qed

text \<open>
  The claim as the specification words it fails. A quote without the members is rendered
  with \<^verbatim>\<open>NaN\<close>, which has no decimal places, as \<^verbatim>\<open>Infinity\<close> has none, and numbers
  of \<open>10\<^sup>2\<^sup>1\<close> and more are rendered in exponent notation. A change of \<^verbatim>\<open>-0.001\<close> is negative, and its summary
  carries the up glyph: the sign is tested on the rendered text \<^verbatim>\<open>-0.00\<close>, which parses
  to the negative zero.
\<close>

theorem small_loss_gets_up_glyph:
  "formatStockResponse jsNumbers bare_quote ''aapl'' =
         down_glyph @ '' AAPL Stock Info:'' @ nl @
         ''Price: $NaN'' @ nl @
         ''Change: $NaN (undefined)'' @ nl @
         ''Today's High: $NaN'' @ nl @
         ''Today's Low: $NaN''
   \<and> \<not> hasTwoDecimals ''NaN''
   \<and> toFixedJS (parseFloatJS ''Infinity'') 2 = ''Infinity''
   \<and> \<not> hasTwoDecimals ''Infinity''
   \<and> formatStockResponse jsNumbers vast_loss ''aapl'' =
         down_glyph @ '' AAPL Stock Info:'' @ nl @
         ''Price: $1.2345678901234568e+22'' @ nl @
         ''Change: $-1e+21 (-50%)'' @ nl @
         ''Today's High: $1e+21'' @ nl @
         ''Today's Low: $1.1805916207174113e+21''
   \<and> \<not> hasTwoDecimals ''1e+21''
   \<and> map_of small_loss ''09. change'' = Some ''-0.001''
   \<and> \<not> geZeroJS (parseFloatJS ''-0.001'')
   \<and> formatStockResponse jsNumbers small_loss ''aapl'' =
         up_glyph @ '' AAPL Stock Info:'' @ nl @
         ''Price: $150.00'' @ nl @
         ''Change: $-0.00 (-0.0007%)'' @ nl @
         ''Today's High: $151.00'' @ nl @
         ''Today's Low: $148.00''"
proof -
  have 1: "map_of small_loss ''09. change'' = Some ''-0.001''" by code_simp
  have 2: "\<not> geZeroJS (parseFloatJS ''-0.001'')" by code_simp
  have 3: "formatStockResponse jsNumbers small_loss ''aapl'' =
         up_glyph @ '' AAPL Stock Info:'' @ nl @
         ''Price: $150.00'' @ nl @
         ''Change: $-0.00 (-0.0007%)'' @ nl @
         ''Today's High: $151.00'' @ nl @
         ''Today's Low: $148.00''"
    by code_simp
  have 4: "formatStockResponse jsNumbers bare_quote ''aapl'' =
         down_glyph @ '' AAPL Stock Info:'' @ nl @
         ''Price: $NaN'' @ nl @
         ''Change: $NaN (undefined)'' @ nl @
         ''Today's High: $NaN'' @ nl @
         ''Today's Low: $NaN''"
    by code_simp
  have 5: "\<not> hasTwoDecimals ''NaN''" by code_simp
  have 6: "formatStockResponse jsNumbers vast_loss ''aapl'' =
         down_glyph @ '' AAPL Stock Info:'' @ nl @
         ''Price: $1.2345678901234568e+22'' @ nl @
         ''Change: $-1e+21 (-50%)'' @ nl @
         ''Today's High: $1e+21'' @ nl @
         ''Today's Low: $1.1805916207174113e+21''"
    by code_simp
  have 7: "\<not> hasTwoDecimals ''1e+21''" by code_simp
  have 8: "toFixedJS (parseFloatJS ''Infinity'') 2 = ''Infinity''" by code_simp
  have 9: "\<not> hasTwoDecimals ''Infinity''" by code_simp
  from 4 5 8 9 6 7 1 2 3 show ?thesis by (intro conjI)
qed

text \<open>
  Claim C10. The command is \<^verbatim>\<open>stock\<close> and the arguments are empty exactly when the
  trimmed, lower-cased message is the word \<^verbatim>\<open>stock\<close>. Such a message sends no request:
  it is answered from the knowledge branches, where nothing matches, with the default text
  and without a chart.
\<close>

theorem bare_stock_gets_default:
  "((command (parseCommand m) = ''stock'' \<and> args (parseCommand m) = []) =
      (trim (toLowerCase m) = ''stock''))
   \<and> (command (parseCommand m) = ''stock'' \<and> args (parseCommand m) = [] \<longrightarrow>
        getBotResponse fp net m = (\<lparr>reply = Text default_text, chartData = None\<rparr>, [])
        \<and> knowledgeReply (toLowerCase m) = Text default_text)"
proof (intro conjI impI)
  show "(command (parseCommand m) = ''stock'' \<and> args (parseCommand m) = []) =
      (trim (toLowerCase m) = ''stock'')"
  proof
    assume "command (parseCommand m) = ''stock'' \<and> args (parseCommand m) = []"
    then show "trim (toLowerCase m) = ''stock''"
      by (intro bare_command) simp_all
  next
    assume "trim (toLowerCase m) = ''stock''"
    then show "command (parseCommand m) = ''stock'' \<and> args (parseCommand m) = []"
      by (simp add: parseCommand_shape)
  qed
next
  assume s: "command (parseCommand m) = ''stock'' \<and> args (parseCommand m) = []"
  then show r: "getBotResponse fp net m = (\<lparr>reply = Text default_text, chartData = None\<rparr>, [])"
    by (intro bare_stock_reply) simp_all
  from s have "getBotResponse fp net m =
      (\<lparr>reply = knowledgeReply (toLowerCase m), chartData = None\<rparr>, [])"
    by (intro knowledge_branch) simp
  with r show "knowledgeReply (toLowerCase m) = Text default_text" by simp
qed

theorem bare_stock_gets_default_witness:
  "command (parseCommand (''  StOcK '' @ [CHR 0x09, CHR 0x0A])) = ''stock''
   \<and> args (parseCommand (''  StOcK '' @ [CHR 0x09, CHR 0x0A])) = []
   \<and> (\<forall>(fp :: 'f number_ops) net.
        getBotResponse fp net (''  StOcK '' @ [CHR 0x09, CHR 0x0A]) =
          (\<lparr>reply = Text default_text, chartData = None\<rparr>, []))"
proof -
  have c: "command (parseCommand (''  StOcK '' @ [CHR 0x09, CHR 0x0A])) = ''stock''"
    by code_simp
  have a: "args (parseCommand (''  StOcK '' @ [CHR 0x09, CHR 0x0A])) = []"
    by code_simp
  have "getBotResponse fp net (''  StOcK '' @ [CHR 0x09, CHR 0x0A]) =
          (\<lparr>reply = Text default_text, chartData = None\<rparr>, [])"
    for fp :: "'f number_ops" and net
    using bare_stock_gets_default
      [where m = "''  StOcK '' @ [CHR 0x09, CHR 0x0A]" and fp = fp and net = net,
       THEN conjunct2] c a
    by blast
  with c a show ?thesis by (intro conjI allI)
qed

end
